theory Spec2Isabelle
  imports Complex_Main "HOL-Library.Word" "HOL-Library.Log_Nat"
begin

section \<open>JavaScript values used by the frontend\<close>

text \<open>
  Errors are values. \<open>Error msg\<close> is a plain \<^verbatim>\<open>new Error(msg)\<close>; \<open>AxiosError st\<close> is an
  error for which \<^verbatim>\<open>axios.isAxiosError\<close> holds, with \<open>st\<close> the HTTP status of
  \<^verbatim>\<open>error.response\<close> when there is a response.
\<close>

datatype js_error = Error string | AxiosError "nat option"


section \<open>frontend/lib/api.ts: the status-polling utility\<close>

datatype task_status = Pending | Completed | Failed
















section \<open>Double-precision arithmetic\<close>

text \<open>
  The page divides, multiplies and subtracts in IEEE 754 binary64 with rounding to nearest,
  ties to even. \<open>fl x\<close> is the double nearest to the exact result \<open>x\<close>; the exponent range is
  taken as unbounded (the quantities of the page stay far from overflow and from the
  subnormal range). Integers below \<open>2^53\<close> are doubles, so widths, heights and byte counts are
  used as they are.

  \<open>binade x\<close> is the exponent \<open>e\<close> with \<open>2^e \<le> x < 2^(e+1)\<close> for a positive \<open>x\<close>; doubles in
  that range are the multiples of \<open>2^(e-52)\<close>.
\<close>

definition round_even :: "rat \<Rightarrow> int" where
  "round_even r =
     (let f = \<lfloor>r\<rfloor>; d = r - of_int f
      in if d < 1 / 2 then f else if 1 / 2 < d then f + 1 else if even f then f else f + 1)"

definition binade :: "rat \<Rightarrow> int" where
  "binade x = (if 1 \<le> x then bitlen \<lfloor>x\<rfloor> - 1 else - bitlen (\<lceil>1 / x\<rceil> - 1))"

definition fl :: "rat \<Rightarrow> rat" where
  "fl x =
     (if x = 0 then 0
      else let u = 2 powi (binade \<bar>x\<bar> - 52) in rat_of_int (round_even (x / u)) * u)"

section \<open>Numbers and strings of the recorder page\<close>

text \<open>
  Clock readings in milliseconds, byte counts and the frame counter are JavaScript numbers
  that are integers far below \<open>2^53\<close>, so they are integers here. The size in megabytes is a
  byte count divided by \<open>1024 * 1024\<close>, which is exact in doubles as well.
\<close>

definition digit_char :: "nat \<Rightarrow> char" where
  "digit_char d = ''0123456789'' ! d"

text \<open>\<^verbatim>\<open>Number.prototype.toString\<close> on an integer: its decimal digits, with a sign.\<close>

fun toString_nat :: "nat \<Rightarrow> string" where
  "toString_nat n =
     (if n < 10 then [digit_char n] else toString_nat (n div 10) @ [digit_char (n mod 10)])"

declare toString_nat.simps [simp del]

definition toString :: "int \<Rightarrow> string" where
  "toString i = (if i < 0 then CHR ''-'' # toString_nat (nat (- i)) else toString_nat (nat i))"

text \<open>\<^verbatim>\<open>String.prototype.padStart\<close> with a one-character filler: it never shortens.\<close>

definition padStart :: "string \<Rightarrow> nat \<Rightarrow> char \<Rightarrow> string" where
  "padStart s targetLength c = replicate (targetLength - length s) c @ s"

text \<open>The \<^verbatim>\<open>%\<close> operator on integers: the remainder has the sign of the dividend.\<close>

definition js_rem :: "int \<Rightarrow> int \<Rightarrow> int" where
  "js_rem a b = (if a < 0 then - ((- a) mod \<bar>b\<bar>) else a mod \<bar>b\<bar>)"

text \<open>
  \<^verbatim>\<open>x.toFixed(2)\<close> for \<open>0 \<le> x < 10^21\<close>: with \<open>n\<close> the integer nearest to \<open>100 * x\<close> (the larger
  one on a tie), the digits of \<open>n\<close> with a point before the last two.
\<close>

definition toFixed2 :: "rat \<Rightarrow> string" where
  "toFixed2 x =
     (let n = nat \<lfloor>x * 100 + 1 / 2\<rfloor>
      in toString_nat (n div 100) @ ''.'' @ padStart (toString_nat (n mod 100)) 2 CHR ''0'')"

text \<open>\<^verbatim>\<open>s.replace(/:/g, '-')\<close>.\<close>

definition replace_colons :: "string \<Rightarrow> string" where
  "replace_colons s = map (\<lambda>c. if c = CHR '':'' then CHR ''-'' else c) s"

section \<open>The platform objects the recorder page drives\<close>

text \<open>A \<^verbatim>\<open>Blob\<close> (and a \<^verbatim>\<open>Uint8Array\<close>) is its bytes; \<^verbatim>\<open>blob.size\<close> is their number.\<close>

type_synonym Blob = "8 word list"

subsection \<open>The codec engine (\<^verbatim>\<open>@ffmpeg/ffmpeg\<close>)\<close>

text \<open>
  The engine owns a virtual filesystem, a list of named files with the newest version of
  a name first. The record also keeps every call the page made, in order.
\<close>

datatype ffcall = WriteFile string Blob | Exec "string list" | ReadFile string

record FFmpeg =
  files :: "(string \<times> Blob) list"
  calls :: "ffcall list"

definition writeFile :: "FFmpeg \<Rightarrow> string \<Rightarrow> Blob \<Rightarrow> FFmpeg" where
  "writeFile ff name data =
     ff\<lparr>files := (name, data) # filter (\<lambda>(n, _). n \<noteq> name) (files ff),
        calls := calls ff @ [WriteFile name data]\<rparr>"

text \<open>
  \<open>run args fs\<close> is what the native toolkit does with the files \<open>fs\<close> on the command line
  \<open>args\<close>: \<open>Inl\<close> when the promise of \<^verbatim>\<open>exec\<close> rejects, \<open>Inr\<close> the files it leaves
  otherwise (the exit code, which the page ignores, is not kept).
\<close>

definition exec ::
  "(string list \<Rightarrow> (string \<times> Blob) list \<Rightarrow> js_error + (string \<times> Blob) list) \<Rightarrow>
   FFmpeg \<Rightarrow> string list \<Rightarrow> FFmpeg \<times> js_error option" where
  "exec run ff args =
     (case run args (files ff) of
        Inl e \<Rightarrow> (ff\<lparr>calls := calls ff @ [Exec args]\<rparr>, Some e)
      | Inr fs \<Rightarrow> (ff\<lparr>files := fs, calls := calls ff @ [Exec args]\<rparr>, None))"

definition readFile :: "FFmpeg \<Rightarrow> string \<Rightarrow> FFmpeg \<times> (js_error + Blob)" where
  "readFile ff name =
     (ff\<lparr>calls := calls ff @ [ReadFile name]\<rparr>,
      case map_of (files ff) name of
        None \<Rightarrow> Inl (Error ''ErrnoError: FS error'')
      | Some data \<Rightarrow> Inr data)"

subsection \<open>Images and the canvas\<close>

record image =
  img_width :: nat
  img_height :: nat

datatype draw_op = DrawImage image rat rat rat rat

text \<open>
  A canvas element: its size, whether \<^verbatim>\<open>getContext('2d')\<close> gives a context, and what has been
  drawn since the canvas was last cleared.
\<close>

record canvas =
  c_width :: nat
  c_height :: nat
  has2d :: bool
  content :: "draw_op list"

subsection \<open>The socket and the recorder\<close>

text \<open>
  A handler installed on a platform object calls the functions of the render that
  installed it, and those read the state variables of that render. A socket therefore
  carries the value of \<^verbatim>\<open>isRecording\<close> that its \<^verbatim>\<open>onclose\<close> handler sees, and a recorder the
  value of \<^verbatim>\<open>ffmpegLoaded\<close> that its \<^verbatim>\<open>onstop\<close> handler sees. Refs are read when the handler
  runs.
\<close>

datatype ready_state = CONNECTING | OPEN | CLOSING | CLOSED

record WebSocket =
  readyState :: ready_state
  seen_isRecording :: bool

datatype recorder_state = RecInactive | RecRecording | RecPaused

text \<open>\<open>gathered\<close>: the encoded data the recorder holds and has not yet delivered.\<close>

record MediaRecorder =
  rec_state :: recorder_state
  gathered :: Blob
  seen_ffmpegLoaded :: bool

text \<open>Tasks that a platform object has queued and that have not run yet.\<close>

datatype task = FireDataAvailable Blob | FireStop

text \<open>
  What the page cannot decide: whether an image source loads (and to which image), whether
  a recorder for \<^verbatim>\<open>video/webm;codecs=vp9\<close> can be constructed, and what the codec toolkit does.
\<close>

record platform =
  loadImage :: "string \<Rightarrow> image option"
  recorderSupported :: bool
  ffmpegRun :: "string list \<Rightarrow> (string \<times> Blob) list \<Rightarrow> js_error + (string \<times> Blob) list"

section \<open>The recorder page (\<^verbatim>\<open>VideoRecorder\<close>)\<close>

text \<open>
  The state variables and refs of the component, the messages written with
  \<^verbatim>\<open>console.error\<close>, the object URLs created, and the pending tasks.
\<close>

record VideoRecorder =
  status :: string
  frameCount :: nat
  recordingTime :: string
  fileSize :: string
  isConnected :: bool
  isRecording :: bool
  showDownload :: bool
  conversionProgress :: nat
  conversionStatus :: string
  downloadUrl :: string
  downloadFilename :: string
  ffmpegLoaded :: bool
  wsRef :: "WebSocket option"
  mediaRecorderRef :: "MediaRecorder option"
  recordedChunksRef :: "Blob list"
  canvasRef :: "canvas option"
  startTimeRef :: int
  recordingIntervalRef :: "unit option"
  ffmpegRef :: "FFmpeg option"
  console_error :: "string list"
  objectURLs :: "(string \<times> Blob) list"
  tasks :: "task list"

text \<open>The component once mounted: the initial values, and the 300 by 300 canvas it renders.\<close>

definition mounted :: VideoRecorder where
  "mounted =
     \<lparr>status = ''Connecting...'', frameCount = 0, recordingTime = ''00:00'',
      fileSize = ''0 MB'', isConnected = False, isRecording = False, showDownload = False,
      conversionProgress = 0, conversionStatus = ''Processing...'', downloadUrl = [],
      downloadFilename = [], ffmpegLoaded = False, wsRef = None, mediaRecorderRef = None,
      recordedChunksRef = [],
      canvasRef = Some \<lparr>c_width = 300, c_height = 300, has2d = True, content = []\<rparr>,
      startTimeRef = 0, recordingIntervalRef = None, ffmpegRef = None, console_error = [],
      objectURLs = [], tasks = []\<rparr>"

text \<open>
  \<^verbatim>\<open>initFFmpeg\<close>: the engine object is stored before it loads; \<open>ok\<close> tells whether
  \<^verbatim>\<open>ffmpeg.load\<close> succeeds.
\<close>

definition initFFmpeg :: "bool \<Rightarrow> VideoRecorder \<Rightarrow> VideoRecorder" where
  "initFFmpeg ok s =
     (let s1 = s\<lparr>ffmpegRef := Some \<lparr>files = [], calls = []\<rparr>\<rparr>
      in if ok then s1\<lparr>ffmpegLoaded := True, status := ''Ready to connect''\<rparr>
         else s1\<lparr>console_error := console_error s1 @ [''Failed to load FFmpeg:''],
                 status := ''FFmpeg failed to load''\<rparr>)"

subsection \<open>Recording time and file size\<close>

definition updateRecordingTime :: "int \<Rightarrow> VideoRecorder \<Rightarrow> VideoRecorder" where
  "updateRecordingTime now s =
     (if startTimeRef s = 0 then s
      else
        let elapsed = now - startTimeRef s;
            minutes = elapsed div 60000;
            seconds = js_rem elapsed 60000 div 1000
        in s\<lparr>recordingTime :=
               padStart (toString minutes) 2 CHR ''0'' @ '':'' @
               padStart (toString seconds) 2 CHR ''0''\<rparr>)"

definition updateFileSize :: "VideoRecorder \<Rightarrow> VideoRecorder" where
  "updateFileSize s =
     (let totalSize = foldl (\<lambda>size chunk. size + length chunk) 0 (recordedChunksRef s);
          sizeMB = toFixed2 (of_nat totalSize / (1024 * 1024))
      in s\<lparr>fileSize := sizeMB @ '' MB''\<rparr>)"

text \<open>The \<^verbatim>\<open>ondataavailable\<close> handler of the recorder.\<close>

definition ondataavailable :: "Blob \<Rightarrow> VideoRecorder \<Rightarrow> VideoRecorder" where
  "ondataavailable data s =
     (if length data > 0
      then updateFileSize (s\<lparr>recordedChunksRef := recordedChunksRef s @ [data]\<rparr>)
      else s)"

subsection \<open>Frames\<close>

definition formats :: "string \<Rightarrow> string list" where
  "formats base64Data =
     [''data:image/bmp;base64,'' @ base64Data,
      ''data:image/jpeg;base64,'' @ base64Data,
      ''data:image/png;base64,'' @ base64Data]"

text \<open>
  Setting \<^verbatim>\<open>img.src\<close> to \<open>fs ! formatIndex\<close>: the image loads, or \<^verbatim>\<open>onerror\<close> advances
  \<open>formatIndex\<close> and sets the next source, or gives up (\<open>None\<close>) after the last one.
\<close>

function set_src :: "(string \<Rightarrow> image option) \<Rightarrow> string list \<Rightarrow> nat \<Rightarrow> image option" where
  "set_src load fs formatIndex =
     (case load (fs ! formatIndex) of
        Some img \<Rightarrow> Some img
      | None \<Rightarrow>
          if formatIndex + 1 < length fs then set_src load fs (formatIndex + 1) else None)"
  by pat_completeness auto
termination
  by (relation "measure (\<lambda>(load, fs, formatIndex). length fs - formatIndex)") auto

declare set_src.simps [simp del]

text \<open>
  The \<^verbatim>\<open>onload\<close> handler: clear the canvas, then draw the image. The quotient, the product
  and the differences are computed in doubles. A loaded image has a positive width and
  height; the quotient is meant for such images only.
\<close>

definition onload :: "canvas \<Rightarrow> image \<Rightarrow> canvas" where
  "onload cv img =
     (let aspectRatio = fl (rat_of_nat (img_width img) / rat_of_nat (img_height img));
          drawWidth = rat_of_nat (c_width cv);
          drawHeight = rat_of_nat (c_height cv);
          drawHeight' = (if aspectRatio > 1 then fl (drawWidth / aspectRatio) else drawHeight);
          drawWidth' = (if aspectRatio > 1 then drawWidth else fl (drawHeight * aspectRatio));
          x = fl (fl (rat_of_nat (c_width cv) - drawWidth') / 2);
          y = fl (fl (rat_of_nat (c_height cv) - drawHeight') / 2)
      in cv\<lparr>content := [DrawImage img x y drawWidth' drawHeight']\<rparr>)"

definition drawFrame :: "platform \<Rightarrow> string \<Rightarrow> VideoRecorder \<Rightarrow> VideoRecorder" where
  "drawFrame p base64Data s =
     (case canvasRef s of
        None \<Rightarrow> s
      | Some cv \<Rightarrow>
          if \<not> has2d cv then s
          else
            (case set_src (loadImage p) (formats base64Data) 0 of
               Some img \<Rightarrow> s\<lparr>canvasRef := Some (onload cv img)\<rparr>
             | None \<Rightarrow>
                 s\<lparr>console_error := console_error s @ [''Failed to load image in any format'']\<rparr>))"

definition handleFrame :: "platform \<Rightarrow> string \<Rightarrow> VideoRecorder \<Rightarrow> VideoRecorder" where
  "handleFrame p data s = drawFrame p data (s\<lparr>frameCount := frameCount s + 1\<rparr>)"

subsection \<open>Starting and stopping a recording\<close>

text \<open>
  \<^verbatim>\<open>startRecording\<close>, reading the clock as \<open>now\<close>. When the recorder cannot be constructed
  the \<^verbatim>\<open>catch\<close> block runs; a constructed recorder starts.
\<close>

definition startRecording :: "platform \<Rightarrow> int \<Rightarrow> VideoRecorder \<Rightarrow> VideoRecorder" where
  "startRecording p now s =
     (if \<not> isConnected s \<or> canvasRef s = None then s
      else
        let s1 = s\<lparr>recordedChunksRef := [], isRecording := True, startTimeRef := now\<rparr>
        in if recorderSupported p then
             s1\<lparr>mediaRecorderRef :=
                   Some \<lparr>rec_state = RecRecording, gathered = [],
                         seen_ffmpegLoaded = ffmpegLoaded s\<rparr>,
                 recordingIntervalRef := Some (),
                 status := ''Recording...''\<rparr>
           else
             s1\<lparr>console_error := console_error s1 @ [''Failed to start recording:''],
                 isRecording := False\<rparr>)"

text \<open>
  \<^verbatim>\<open>mediaRecorder.stop()\<close> on an active recorder: it becomes inactive and queues a task that
  fires \<^verbatim>\<open>dataavailable\<close> with the gathered data, then one that fires \<^verbatim>\<open>stop\<close>.
\<close>

definition recorder_stop :: "MediaRecorder \<Rightarrow> VideoRecorder \<Rightarrow> VideoRecorder" where
  "recorder_stop r s =
     s\<lparr>mediaRecorderRef := Some (r\<lparr>rec_state := RecInactive, gathered := []\<rparr>),
       tasks := tasks s @ [FireDataAvailable (gathered r), FireStop]\<rparr>"

text \<open>
  \<^verbatim>\<open>stopRecording\<close> as a handler that sees the value \<open>seen\<close> of \<^verbatim>\<open>isRecording\<close>; the Stop
  button and \<^verbatim>\<open>disconnect\<close> call the one of the current render.
\<close>

definition stopRecording_seen :: "bool \<Rightarrow> VideoRecorder \<Rightarrow> VideoRecorder" where
  "stopRecording_seen seen s =
     (if \<not> seen then s
      else
        let s1 = s\<lparr>isRecording := False\<rparr>;
            s2 = (case mediaRecorderRef s1 of
                    None \<Rightarrow> s1
                  | Some r \<Rightarrow> if rec_state r = RecRecording then recorder_stop r s1 else s1);
            s3 = (case recordingIntervalRef s2 of
                    None \<Rightarrow> s2
                  | Some _ \<Rightarrow> s2\<lparr>recordingIntervalRef := None\<rparr>)
        in s3\<lparr>status := ''Recording stopped''\<rparr>)"

definition stopRecording :: "VideoRecorder \<Rightarrow> VideoRecorder" where
  "stopRecording s = stopRecording_seen (isRecording s) s"

subsection \<open>The transcode\<close>

definition ffmpeg_args :: "string list" where
  "ffmpeg_args =
     [''-i'', ''input.webm'', ''-c:v'', ''libx264'', ''-preset'', ''fast'', ''-crf'', ''23'',
      ''-c:a'', ''aac'', ''-b:a'', ''128k'', ''output.mp4'']"

text \<open>\<^verbatim>\<open>URL.createObjectURL\<close>: a reference that no earlier call returned.\<close>

definition createObjectURL :: "VideoRecorder \<Rightarrow> Blob \<Rightarrow> string \<times> VideoRecorder" where
  "createObjectURL s blob =
     (let url = ''blob:'' @ toString_nat (length (objectURLs s))
      in (url, s\<lparr>objectURLs := objectURLs s @ [(url, blob)]\<rparr>))"

text \<open>The \<^verbatim>\<open>catch\<close> block of \<^verbatim>\<open>createVideoBlob\<close>.\<close>

definition convert_failed :: "VideoRecorder \<Rightarrow> VideoRecorder" where
  "convert_failed s =
     s\<lparr>console_error := console_error s @ [''Error converting video:''],
       conversionStatus := ''Error converting video. Please try again.''\<rparr>"

text \<open>
  \<^verbatim>\<open>createVideoBlob\<close> as the handler that sees the value \<open>loaded\<close> of \<^verbatim>\<open>ffmpegLoaded\<close>; \<open>isoNow\<close> is
  what \<^verbatim>\<open>new Date().toISOString()\<close> returns when the file name is built. Progress events of
  the engine, which only move the progress bar, are left out.
\<close>

definition createVideoBlob ::
  "platform \<Rightarrow> string \<Rightarrow> bool \<Rightarrow> VideoRecorder \<Rightarrow> VideoRecorder" where
  "createVideoBlob p isoNow loaded s =
     (let s0 = s\<lparr>showDownload := True, conversionStatus := ''Processing video...'',
                 conversionProgress := 0\<rparr>;
          webmBlob = concat (recordedChunksRef s0)
      in case ffmpegRef s0 of
           None \<Rightarrow> convert_failed s0
         | Some ff \<Rightarrow>
             if \<not> loaded then convert_failed s0
             else
               let ff1 = writeFile ff ''input.webm'' webmBlob
               in (case exec (ffmpegRun p) ff1 ffmpeg_args of
                    (ff2, Some e) \<Rightarrow> convert_failed (s0\<lparr>ffmpegRef := Some ff2\<rparr>)
                  | (ff2, None) \<Rightarrow>
                      (case readFile ff2 ''output.mp4'' of
                         (ff3, Inl e) \<Rightarrow> convert_failed (s0\<lparr>ffmpegRef := Some ff3\<rparr>)
                       | (ff3, Inr data) \<Rightarrow>
                           (case createObjectURL (s0\<lparr>ffmpegRef := Some ff3\<rparr>) data of
                              (url, s1) \<Rightarrow>
                                let filename = ''recorded_video_''
                                      @ replace_colons (take 19 isoNow) @ ''.mp4''
                                in s1\<lparr>downloadUrl := url, downloadFilename := filename,
                                       conversionStatus := ''MP4 video ready for download!'',
                                       conversionProgress := 100,
                                       status := ''Video ready for download''\<rparr>))))"

subsection \<open>The connection\<close>

definition disconnect :: "VideoRecorder \<Rightarrow> VideoRecorder" where
  "disconnect s =
     (let s1 = (case wsRef s of
                  None \<Rightarrow> s
                | Some ws \<Rightarrow> s\<lparr>wsRef := Some (ws\<lparr>readyState := CLOSING\<rparr>)\<rparr>)
      in stopRecording (s1\<lparr>isConnected := False, status := ''Disconnected''\<rparr>))"

definition connect :: "VideoRecorder \<Rightarrow> VideoRecorder" where
  "connect s =
     (if isConnected s then disconnect s
      else s\<lparr>status := ''Connecting...'',
             wsRef := Some \<lparr>readyState = CONNECTING, seen_isRecording = isRecording s\<rparr>\<rparr>)"

definition ws_onopen :: "VideoRecorder \<Rightarrow> VideoRecorder" where
  "ws_onopen s = s\<lparr>isConnected := True, status := ''Connected''\<rparr>"

definition ws_onerror :: "VideoRecorder \<Rightarrow> VideoRecorder" where
  "ws_onerror s =
     s\<lparr>console_error := console_error s @ [''WebSocket error:''],
       status := ''Connection Error'', isConnected := False\<rparr>"

definition ws_onclose :: "WebSocket \<Rightarrow> VideoRecorder \<Rightarrow> VideoRecorder" where
  "ws_onclose ws s =
     stopRecording_seen (seen_isRecording ws) (s\<lparr>isConnected := False, status := ''Disconnected''\<rparr>)"

subsection \<open>The event loop\<close>

text \<open>
  Everything that can happen to the page, with the clock reading where a handler takes
  one. \<open>RunTask isoNow\<close> runs the oldest pending task.
\<close>

datatype event =
    LoadFFmpeg bool
  | ClickConnect | SocketOpen | SocketError | SocketClose | SocketMessage string
  | ClickStart int | ClickStop | Tick int
  | Encoded Blob | Timeslice | RunTask string
  | ClickDownload

definition run_task :: "platform \<Rightarrow> string \<Rightarrow> VideoRecorder \<Rightarrow> VideoRecorder" where
  "run_task p isoNow s =
     (case tasks s of
        [] \<Rightarrow> s
      | FireDataAvailable data # rest \<Rightarrow> ondataavailable data (s\<lparr>tasks := rest\<rparr>)
      | FireStop # rest \<Rightarrow>
          (case mediaRecorderRef s of
             None \<Rightarrow> s\<lparr>tasks := rest\<rparr>
           | Some r \<Rightarrow> createVideoBlob p isoNow (seen_ffmpegLoaded r) (s\<lparr>tasks := rest\<rparr>)))"

fun step :: "platform \<Rightarrow> event \<Rightarrow> VideoRecorder \<Rightarrow> VideoRecorder" where
  "step p (LoadFFmpeg ok) s = initFFmpeg ok s"
| "step p ClickConnect s = (if ffmpegLoaded s then connect s else s)"
| "step p SocketOpen s = (case wsRef s of None \<Rightarrow> s | Some ws \<Rightarrow> ws_onopen s)"
| "step p SocketError s = (case wsRef s of None \<Rightarrow> s | Some ws \<Rightarrow> ws_onerror s)"
| "step p SocketClose s = (case wsRef s of None \<Rightarrow> s | Some ws \<Rightarrow> ws_onclose ws s)"
| "step p (SocketMessage data) s = (case wsRef s of None \<Rightarrow> s | Some ws \<Rightarrow> handleFrame p data s)"
| "step p (ClickStart now) s =
     (if \<not> isConnected s \<or> isRecording s \<or> \<not> ffmpegLoaded s then s else startRecording p now s)"
| "step p ClickStop s = (if \<not> isRecording s then s else stopRecording s)"
| "step p (Tick now) s =
     (case recordingIntervalRef s of None \<Rightarrow> s | Some _ \<Rightarrow> updateRecordingTime now s)"
| "step p (Encoded data) s =
     (case mediaRecorderRef s of
        None \<Rightarrow> s
      | Some r \<Rightarrow>
          if rec_state r = RecRecording
          then s\<lparr>mediaRecorderRef := Some (r\<lparr>gathered := gathered r @ data\<rparr>)\<rparr> else s)"
| "step p Timeslice s =
     (case mediaRecorderRef s of
        None \<Rightarrow> s
      | Some r \<Rightarrow>
          if rec_state r = RecRecording
          then ondataavailable (gathered r) (s\<lparr>mediaRecorderRef := Some (r\<lparr>gathered := []\<rparr>)\<rparr>)
          else s)"
| "step p (RunTask isoNow) s = run_task p isoNow s"
| "step p ClickDownload s = s"

fun run_events :: "platform \<Rightarrow> event list \<Rightarrow> VideoRecorder \<Rightarrow> VideoRecorder" where
  "run_events p [] s = s"
| "run_events p (e # es) s = run_events p es (step p e s)"

section \<open>Notions of the specification, and example inputs\<close>

text \<open>
  The first image obtained when the payload is read as a bitmap, then as a JPEG, then as a
  PNG; \<open>None\<close> when none of the three loads.
\<close>

definition first_decodable :: "(string \<Rightarrow> image option) \<Rightarrow> string \<Rightarrow> image option" where
  "first_decodable load base64Data =
     (case load (''data:image/bmp;base64,'' @ base64Data) of
        Some img \<Rightarrow> Some img
      | None \<Rightarrow>
          (case load (''data:image/jpeg;base64,'' @ base64Data) of
             Some img \<Rightarrow> Some img
           | None \<Rightarrow> load (''data:image/png;base64,'' @ base64Data)))"

text \<open>
  An image drawn at \<open>(x, y)\<close> with size \<open>w\<close> by \<open>h\<close> is centered and aspect-fit, to the
  precision of doubles: it lies within the canvas and touches it in one dimension; its
  proportions are those of the image up to a relative \<open>2^-51\<close>; the margins are not negative
  and those on opposite sides are equal up to the same fraction of the canvas.
\<close>

definition centered_aspect_fit :: "canvas \<Rightarrow> image \<Rightarrow> rat \<Rightarrow> rat \<Rightarrow> rat \<Rightarrow> rat \<Rightarrow> bool" where
  "centered_aspect_fit cv img x y w h =
     (0 < w \<and> 0 < h \<and> w \<le> rat_of_nat (c_width cv) \<and> h \<le> rat_of_nat (c_height cv)
      \<and> (w = rat_of_nat (c_width cv) \<or> h = rat_of_nat (c_height cv))
      \<and> \<bar>w * rat_of_nat (img_height img) - h * rat_of_nat (img_width img)\<bar>
            \<le> h * rat_of_nat (img_width img) / 2 ^ 51
      \<and> 0 \<le> x \<and> 0 \<le> y
      \<and> \<bar>x + w + x - rat_of_nat (c_width cv)\<bar> \<le> rat_of_nat (c_width cv) / 2 ^ 51
      \<and> \<bar>y + h + y - rat_of_nat (c_height cv)\<bar> \<le> rat_of_nat (c_height cv) / 2 ^ 51)"

text \<open>A platform on which one payload loads, as a 600 by 300 JPEG, and nothing else does.\<close>

definition jpeg_only :: platform where
  "jpeg_only =
     \<lparr>loadImage = (\<lambda>src. if src = ''data:image/jpeg;base64,QUJD''
                          then Some \<lparr>img_width = 600, img_height = 300\<rparr> else None),
      recorderSupported = True,
      ffmpegRun = (\<lambda>args fs. Inl (Error ''unused''))\<rparr>"

text \<open>A toolkit that transcodes: it leaves the input and writes an output derived from it.\<close>

definition transcoding :: platform where
  "transcoding =
     \<lparr>loadImage = (\<lambda>src. None),
      recorderSupported = True,
      ffmpegRun = (\<lambda>args fs.
        case map_of fs ''input.webm'' of
          None \<Rightarrow> Inl (Error ''No such file'')
        | Some data \<Rightarrow> Inr ((''output.mp4'', rev data) # fs))\<rparr>"

text \<open>The virtual files a call of the engine names.\<close>

definition call_names :: "ffcall \<Rightarrow> string list" where
  "call_names c = (case c of WriteFile name _ \<Rightarrow> [name] | Exec _ \<Rightarrow> [] | ReadFile name \<Rightarrow> [name])"

text \<open>The calls the page has made on its engine so far.\<close>

definition calls_of :: "VideoRecorder \<Rightarrow> ffcall list" where
  "calls_of s = (case ffmpegRef s of None \<Rightarrow> [] | Some ff \<Rightarrow> calls ff)"

text \<open>The calls one run of \<^verbatim>\<open>createVideoBlob\<close> adds, and the file names they use.\<close>

definition job_calls :: "platform \<Rightarrow> string \<Rightarrow> bool \<Rightarrow> VideoRecorder \<Rightarrow> ffcall list" where
  "job_calls p isoNow loaded s =
     drop (length (calls_of s)) (calls_of (createVideoBlob p isoNow loaded s))"

definition job_names :: "platform \<Rightarrow> string \<Rightarrow> bool \<Rightarrow> VideoRecorder \<Rightarrow> string list" where
  "job_names p isoNow loaded s = concat (map call_names (job_calls p isoNow loaded s))"

text \<open>
  A page with the engine loaded and a stopped recording of two chunks, and the same page
  after that recording was transcoded and a second recording of one chunk was made.
\<close>

definition recorded :: VideoRecorder where
  "recorded =
     mounted\<lparr>ffmpegRef := Some \<lparr>files = [], calls = []\<rparr>, ffmpegLoaded := True,
             recordedChunksRef := [[1, 2], [3]],
             mediaRecorderRef := Some \<lparr>rec_state = RecInactive, gathered = [],
                                       seen_ffmpegLoaded = True\<rparr>\<rparr>"

definition recorded_again :: VideoRecorder where
  "recorded_again =
     (createVideoBlob transcoding ''2024-01-15T10:30:45.123Z'' True recorded)
       \<lparr>recordedChunksRef := [[4]]\<rparr>"

text \<open>
  An event starts a transcode job when it runs the recorder's \<^verbatim>\<open>stop\<close> task; \<open>no_job p es s\<close>
  says that none of the events \<open>es\<close>, run from \<open>s\<close>, does.
\<close>

definition starts_job :: "event \<Rightarrow> VideoRecorder \<Rightarrow> bool" where
  "starts_job e s =
     (case e of
        RunTask _ \<Rightarrow>
          (case tasks s of FireStop # _ \<Rightarrow> mediaRecorderRef s \<noteq> None | _ \<Rightarrow> False)
      | _ \<Rightarrow> False)"

fun no_job :: "platform \<Rightarrow> event list \<Rightarrow> VideoRecorder \<Rightarrow> bool" where
  "no_job p [] s = True"
| "no_job p (e # es) s = (\<not> starts_job e s \<and> no_job p es (step p e s))"

text \<open>Decimal digits, and calls of \<^verbatim>\<open>exec\<close>.\<close>

definition is_digit :: "char \<Rightarrow> bool" where
  "is_digit c = (c \<in> set ''0123456789'')"

definition is_exec :: "ffcall \<Rightarrow> bool" where
  "is_exec c = (case c of Exec _ \<Rightarrow> True | _ \<Rightarrow> False)"

text \<open>A platform whose codec toolkit aborts on every command.\<close>

definition failing_toolkit :: platform where
  "failing_toolkit =
     \<lparr>loadImage = (\<lambda>src. None), recorderSupported = True,
      ffmpegRun = (\<lambda>args fs. Inl (Error ''Aborted()''))\<rparr>"

text \<open>A number below 100 as two decimal digits.\<close>

definition two_digits :: "nat \<Rightarrow> string" where
  "two_digits n = [digit_char (n div 10), digit_char (n mod 10)]"

text \<open>
  The recording time as the specification words it: the elapsed milliseconds rounded to the
  nearest second, as \<^verbatim>\<open>MM:SS\<close> with two-digit fields.
\<close>

definition nearest_second_display :: "int \<Rightarrow> string" where
  "nearest_second_display elapsed =
     (let secs = nat ((elapsed + 500) div 1000)
      in two_digits (secs div 60) @ '':'' @ two_digits (secs mod 60))"

text \<open>
  The recording time in whole elapsed seconds, rounded down: minutes padded to at least two
  digits, seconds as two digits.
\<close>

definition whole_second_display :: "int \<Rightarrow> string" where
  "whole_second_display elapsed =
     (let secs = nat (elapsed div 1000)
      in padStart (toString_nat (secs div 60)) 2 CHR ''0'' @ '':'' @ two_digits (secs mod 60))"

text \<open>Clicks on the Start button.\<close>

definition is_start :: "event \<Rightarrow> bool" where
  "is_start e = (case e of ClickStart _ \<Rightarrow> True | _ \<Rightarrow> False)"

text \<open>
  The events that take the mounted page into a recording started at clock reading 1000.
\<close>

definition recording_session :: "event list" where
  "recording_session = [LoadFFmpeg True, ClickConnect, SocketOpen, ClickStart 1000]"

text \<open>
  The file size as the specification words it: the byte sizes of the chunks summed,
  converted to megabytes and shown with two decimals.
\<close>

definition size_display :: "Blob list \<Rightarrow> string" where
  "size_display chunks =
     toFixed2 (rat_of_nat (sum_list (map length chunks)) / 1048576) @ '' MB''"

text \<open>
  A recording in progress: one chunk of two bytes delivered, one more byte gathered.
\<close>

definition recording_two_chunks :: VideoRecorder where
  "recording_two_chunks =
     run_events transcoding (recording_session @ [Encoded [1, 2], Timeslice, Encoded [3]]) mounted"

text \<open>
  A toolkit whose command fails the way the engine reports a failed command: the promise of
  \<^verbatim>\<open>exec\<close> resolves, with exit code 1, and the files are as they were.
\<close>

definition exit_code_one :: platform where
  "exit_code_one =
     \<lparr>loadImage = (\<lambda>src. None), recorderSupported = True,
      ffmpegRun = (\<lambda>args fs. Inr fs)\<rparr>"

text \<open>A toolkit that fails in the same way after it has created an empty output file.\<close>

definition empty_output :: platform where
  "empty_output =
     \<lparr>loadImage = (\<lambda>src. None), recorderSupported = True,
      ffmpegRun = (\<lambda>args fs. Inr ((''output.mp4'', []) # fs))\<rparr>"

text \<open>
  An event delivers a chunk when it makes the recorder hand a non-empty blob to
  \<^verbatim>\<open>ondataavailable\<close>: a time slice of an active recorder that has gathered data, or the
  queued delivery of a stopped one. \<open>no_chunk p es s\<close> says that none of the events \<open>es\<close>,
  run from \<open>s\<close>, does.
\<close>

definition delivers :: "event \<Rightarrow> VideoRecorder \<Rightarrow> bool" where
  "delivers e s =
     (case e of
        Timeslice \<Rightarrow>
          (case mediaRecorderRef s of
             None \<Rightarrow> False
           | Some r \<Rightarrow> rec_state r = RecRecording \<and> gathered r \<noteq> [])
      | RunTask _ \<Rightarrow>
          (case tasks s of FireDataAvailable data # _ \<Rightarrow> data \<noteq> [] | _ \<Rightarrow> False)
      | _ \<Rightarrow> False)"

fun no_chunk :: "platform \<Rightarrow> event list \<Rightarrow> VideoRecorder \<Rightarrow> bool" where
  "no_chunk p [] s = True"
| "no_chunk p (e # es) s = (\<not> delivers e s \<and> no_chunk p es (step p e s))"

text \<open>
  A first recording with the one chunk \<open>data\<close>, stopped and transcoded, and then a second
  start at clock reading 9000.
\<close>

definition second_recording :: "Blob \<Rightarrow> event list" where
  "second_recording data =
     recording_session
     @ [Encoded data, Timeslice, ClickStop,
        RunTask ''2024-01-15T10:30:45.123Z'', RunTask ''2024-01-15T10:30:45.223Z'',
        ClickStart 9000]"

text \<open>
  A recording whose socket fails and closes, with a reconnection while the recording still
  runs: the handlers of the second socket belong to a render in which \<^verbatim>\<open>isRecording\<close> is
  true. The recording is then stopped with the Stop button and transcoded.
\<close>

definition reconnected_stopped :: VideoRecorder where
  "reconnected_stopped =
     run_events transcoding
       (recording_session
        @ [SocketError, SocketClose, ClickConnect, SocketOpen, ClickStop,
           RunTask ''2024-01-15T10:30:45.123Z'', RunTask ''2024-01-15T10:30:45.223Z''])
       mounted"

section \<open>Properties of the status-polling utility\<close>




















section \<open>Properties of double-precision rounding\<close>

lemma round_even_near: "\<bar>rat_of_int (round_even r) - r\<bar> \<le> 1 / 2"
proof -
  have "rat_of_int \<lfloor>r\<rfloor> \<le> r" "r < rat_of_int \<lfloor>r\<rfloor> + 1" by linarith+
  then show ?thesis by (auto simp: round_even_def Let_def)
qed

lemma round_even_ge: "rat_of_int M \<le> r \<Longrightarrow> M \<le> round_even r"
proof -
  assume "rat_of_int M \<le> r"
  then have "M \<le> \<lfloor>r\<rfloor>" by (simp add: le_floor_iff)
  then show ?thesis by (auto simp: round_even_def Let_def)
qed

lemma round_even_le: "r \<le> rat_of_int M \<Longrightarrow> round_even r \<le> M"
proof -
  assume h: "r \<le> rat_of_int M"
  have fl: "rat_of_int \<lfloor>r\<rfloor> \<le> r" by linarith
  show ?thesis
  proof (cases "r = rat_of_int \<lfloor>r\<rfloor>")
    case True
    then have "r - rat_of_int \<lfloor>r\<rfloor> = 0" by simp
    moreover have "\<lfloor>r\<rfloor> \<le> M" using floor_mono[OF h] by simp
    ultimately show ?thesis by (simp add: round_even_def Let_def)
  next
    case False
    with fl have "rat_of_int \<lfloor>r\<rfloor> < rat_of_int M" using h by linarith
    then have "\<lfloor>r\<rfloor> + 1 \<le> M" by simp
    moreover have "\<lfloor>r\<rfloor> \<le> M" using \<open>\<lfloor>r\<rfloor> + 1 \<le> M\<close> by simp
    ultimately show ?thesis by (auto simp: round_even_def Let_def)
  qed
qed

lemma powi_nonneg: "0 \<le> k \<Longrightarrow> (2::rat) powi k = 2 ^ nat k"
  by (simp add: power_int_def)

lemma powi_neg: "0 \<le> k \<Longrightarrow> (2::rat) powi (- k) = 1 / 2 ^ nat k"
  by (simp add: power_int_minus_divide powi_nonneg)

lemma binade_bounds:
  assumes "0 < x"
  shows "2 powi (binade x) \<le> x" and "x < 2 powi (binade x + 1)"
proof -
  show "2 powi (binade x) \<le> x"
  proof (cases "1 \<le> x")
    case True
    then have p: "0 < \<lfloor>x\<rfloor>" by simp
    from bitlen_bounds[OF p] have "2 ^ nat (bitlen \<lfloor>x\<rfloor> - 1) \<le> \<lfloor>x\<rfloor>" by simp
    then have "rat_of_int (2 ^ nat (bitlen \<lfloor>x\<rfloor> - 1)) \<le> rat_of_int \<lfloor>x\<rfloor>"
      by (simp only: of_int_le_iff)
    also have "\<dots> \<le> x" by linarith
    finally have "rat_of_int (2 ^ nat (bitlen \<lfloor>x\<rfloor> - 1)) \<le> x" .
    then have "(2::rat) ^ nat (bitlen \<lfloor>x\<rfloor> - 1) \<le> x" by (simp only: of_int_power of_int_numeral)
    moreover have "1 \<le> bitlen \<lfloor>x\<rfloor>" using p by (simp add: bitlen_alt_def)
    ultimately show ?thesis using True by (simp add: binade_def powi_nonneg)
  next
    case False
    define m where "m = \<lceil>1 / x\<rceil>"
    have x1: "1 < 1 / x" using False assms by simp
    then have m2: "2 \<le> m" unfolding m_def by linarith
    then have p: "0 < m - 1" by simp
    from bitlen_bounds[OF p] have "m - 1 < 2 ^ nat (bitlen (m - 1))" by simp
    then have "m \<le> 2 ^ nat (bitlen (m - 1))" by simp
    then have "rat_of_int m \<le> rat_of_int (2 ^ nat (bitlen (m - 1)))" by (simp only: of_int_le_iff)
    then have "rat_of_int m \<le> 2 ^ nat (bitlen (m - 1))" by (simp only: of_int_power of_int_numeral)
    moreover have "1 / x \<le> rat_of_int m" unfolding m_def by linarith
    ultimately have "1 / x \<le> 2 ^ nat (bitlen (m - 1))" by linarith
    then have "1 / 2 ^ nat (bitlen (m - 1)) \<le> x"
      using assms by (simp add: field_simps)
    moreover have "0 \<le> bitlen (m - 1)" by (rule bitlen_nonneg)
    ultimately show ?thesis using False
      by (simp add: binade_def m_def[symmetric] powi_neg)
  qed
  show "x < 2 powi (binade x + 1)"
  proof (cases "1 \<le> x")
    case True
    then have p: "0 < \<lfloor>x\<rfloor>" by simp
    from bitlen_bounds[OF p] have "\<lfloor>x\<rfloor> + 1 \<le> 2 ^ nat (bitlen \<lfloor>x\<rfloor>)" by simp
    then have "rat_of_int (\<lfloor>x\<rfloor> + 1) \<le> rat_of_int (2 ^ nat (bitlen \<lfloor>x\<rfloor>))"
      by (simp only: of_int_le_iff)
    then have "rat_of_int (\<lfloor>x\<rfloor> + 1) \<le> 2 ^ nat (bitlen \<lfloor>x\<rfloor>)"
      by (simp only: of_int_power of_int_numeral)
    moreover have "x < rat_of_int (\<lfloor>x\<rfloor> + 1)" by linarith
    ultimately have "x < 2 ^ nat (bitlen \<lfloor>x\<rfloor>)" by linarith
    moreover have "0 \<le> bitlen \<lfloor>x\<rfloor>" by (rule bitlen_nonneg)
    ultimately show ?thesis using True by (simp add: binade_def powi_nonneg)
  next
    case False
    define m where "m = \<lceil>1 / x\<rceil>"
    define k where "k = bitlen (m - 1)"
    have x1: "1 < 1 / x" using False assms by simp
    then have m2: "2 \<le> m" unfolding m_def by linarith
    then have p: "0 < m - 1" by simp
    have k1: "1 \<le> k" unfolding k_def using p by (simp add: bitlen_alt_def)
    from bitlen_bounds[OF p] have "2 ^ nat (k - 1) \<le> m - 1" by (simp add: k_def)
    then have "rat_of_int (2 ^ nat (k - 1)) \<le> rat_of_int (m - 1)" by (simp only: of_int_le_iff)
    then have "2 ^ nat (k - 1) \<le> rat_of_int (m - 1)" by (simp only: of_int_power of_int_numeral)
    moreover have "rat_of_int (m - 1) < 1 / x" unfolding m_def by linarith
    ultimately have "2 ^ nat (k - 1) < 1 / x" by linarith
    then have lt: "x < 1 / 2 ^ nat (k - 1)" using assms by (simp add: field_simps)
    have "- k + 1 = - (k - 1)" by simp
    then have "2 powi (- k + 1) = (1::rat) / 2 ^ nat (k - 1)"
      using k1 by (simp only: powi_neg)
    with lt show ?thesis using False by (simp add: binade_def m_def[symmetric] k_def[symmetric])
  qed
qed


lemma fl_zero: "fl 0 = 0"
  by (simp add: fl_def)

lemma fl_unfold:
  assumes "0 < x"
  shows "fl x = rat_of_int (round_even (x / 2 powi (binade x - 52))) * 2 powi (binade x - 52)"
  using assms by (simp add: fl_def Let_def)

lemma ulp_eq: "(2::rat) powi (e - 52) = 2 powi e / 2 ^ 52"
proof -
  have "(2::rat) powi (e - 52) = 2 powi e / 2 powi 52" by (rule power_int_diff) simp
  then show ?thesis by simp
qed

lemma fl_rel:
  assumes "0 < x"
  shows "\<bar>fl x - x\<bar> \<le> x / 2 ^ 53"
proof -
  define u :: rat where "u = 2 powi (binade x - 52)"
  define n where "n = rat_of_int (round_even (x / u))"
  have u0: "0 < u" unfolding u_def by (simp add: zero_less_power_int)
  have near: "\<bar>n - x / u\<bar> \<le> 1 / 2" unfolding n_def by (rule round_even_near)
  have "fl x - x = (n - x / u) * u" using u0
    by (simp add: fl_unfold[OF assms] u_def[symmetric] n_def field_simps)
  then have "\<bar>fl x - x\<bar> = \<bar>n - x / u\<bar> * u" using u0 by (simp add: abs_mult)
  also have "\<dots> \<le> (1 / 2) * u" using near u0 by (simp add: mult_right_mono)
  also have "\<dots> = 2 powi (binade x) / 2 ^ 53" unfolding u_def ulp_eq by simp
  also have "\<dots> \<le> x / 2 ^ 53" using binade_bounds(1)[OF assms] by (simp add: divide_right_mono)
  finally show ?thesis .
qed

lemma fl_pos:
  assumes "0 < x"
  shows "0 < fl x"
proof -
  define u :: rat where "u = 2 powi (binade x - 52)"
  have u0: "0 < u" unfolding u_def by (simp add: zero_less_power_int)
  have "2 ^ 52 * u = 2 powi (binade x)" unfolding u_def ulp_eq by simp
  also have "\<dots> \<le> x" by (rule binade_bounds(1)[OF assms])
  finally have "2 ^ 52 \<le> x / u" using u0 by (simp add: field_simps)
  then have "rat_of_int (2 ^ 52) \<le> x / u" by simp
  then have "2 ^ 52 \<le> round_even (x / u)" by (rule round_even_ge)
  then have "0 < round_even (x / u)" by simp
  then have "0 < rat_of_int (round_even (x / u)) * u" using u0 by simp
  then show ?thesis by (simp add: fl_unfold[OF assms] u_def)
qed

lemma fl_le_nat:
  assumes "0 < x" and "x \<le> rat_of_nat C" and "C < 2 ^ 53"
  shows "fl x \<le> rat_of_nat C"
proof -
  define e where "e = binade x"
  define u :: rat where "u = 2 powi (e - 52)"
  have u0: "0 < u" unfolding u_def by (simp add: zero_less_power_int)
  have "rat_of_nat C < 2 ^ 53" using assms(3) by (metis of_nat_less_iff of_nat_numeral of_nat_power)
  with assms(2) binade_bounds(1)[OF assms(1)] have lt: "2 powi e < (2::rat) powi 53"
    unfolding e_def by simp
  have e52: "e \<le> 52"
  proof (rule ccontr)
    assume "\<not> e \<le> 52"
    then have "53 \<le> e" by simp
    then have "(2::rat) powi 53 \<le> 2 powi e" by (rule power_int_increasing) simp
    with lt show False by simp
  qed
  have "(2::rat) powi (52 - e) * 2 powi (e - 52) = 2 powi ((52 - e) + (e - 52))"
    by (rule power_int_add[symmetric]) simp
  then have inv: "(2::rat) powi (52 - e) * u = 1" by (simp add: u_def)
  have p: "(2::rat) powi (52 - e) = 2 ^ nat (52 - e)" using e52 by (simp add: powi_nonneg)
  define M where "M = int C * 2 ^ nat (52 - e)"
  have "rat_of_int M = rat_of_nat C * 2 powi (52 - e)" by (simp add: M_def p)
  also have "\<dots> = rat_of_nat C / u" using inv u0 by (simp add: field_simps)
  finally have M: "rat_of_int M = rat_of_nat C / u" .
  have "x / u \<le> rat_of_int M" unfolding M using assms(2) u0 by (simp add: divide_right_mono)
  then have "round_even (x / u) \<le> M" by (rule round_even_le)
  then have "rat_of_int (round_even (x / u)) \<le> rat_of_int M" by (simp only: of_int_le_iff)
  then have "rat_of_int (round_even (x / u)) * u \<le> rat_of_int M * u"
    using u0 by (simp add: mult_right_mono)
  also have "\<dots> = rat_of_nat C" unfolding M using u0 by simp
  finally show ?thesis by (simp add: fl_unfold[OF assms(1)] u_def e_def)
qed


lemma margin:
  assumes "0 \<le> d" and "d \<le> C"
  shows "0 \<le> fl (fl d / 2) \<and> \<bar>fl (fl d / 2) + (C - d) + fl (fl d / 2) - C\<bar> \<le> C / 2 ^ 51"
proof (cases "d = 0")
  case True
  with assms show ?thesis by (simp add: fl_zero)
next
  case False
  with assms have d0: "0 < d" by simp
  define d1 where "d1 = fl d"
  define y where "y = fl (d1 / 2)"
  have d10: "0 < d1" unfolding d1_def by (rule fl_pos[OF d0])
  have e1: "\<bar>d1 - d\<bar> \<le> d / 2 ^ 53" unfolding d1_def by (rule fl_rel[OF d0])
  have h0: "0 < d1 / 2" using d10 by simp
  have y0: "0 < y" unfolding y_def by (rule fl_pos[OF h0])
  have e2: "\<bar>y - d1 / 2\<bar> \<le> (d1 / 2) / 2 ^ 53" unfolding y_def by (rule fl_rel[OF h0])
  note a = abs_le_D1[OF e1] abs_le_D2[OF e1] abs_le_D1[OF e2] abs_le_D2[OF e2]
  have "\<bar>y + (C - d) + y - C\<bar> \<le> C / 2 ^ 51"
  proof (rule abs_leI)
    show "y + (C - d) + y - C \<le> C / 2 ^ 51" using a d0 assms(2) by (simp; linarith)
    show "- (y + (C - d) + y - C) \<le> C / 2 ^ 51" using a d0 assms(2) by (simp; linarith)
  qed
  with y0 show ?thesis by (simp add: y_def d1_def)
qed

lemma two_roundings:
  fixes T z C :: rat
  assumes "0 \<le> z" and "\<bar>T - z\<bar> \<le> z / 2 ^ 53" and "\<bar>T - C\<bar> \<le> C / 2 ^ 53"
  shows "\<bar>C - z\<bar> \<le> z / 2 ^ 51"
proof (rule abs_leI)
  note a = abs_le_D1[OF assms(2)] abs_le_D2[OF assms(2)] abs_le_D1[OF assms(3)] abs_le_D2[OF assms(3)]
  show "C - z \<le> z / 2 ^ 51" using a assms(1) by (simp; linarith)
  show "- (C - z) \<le> z / 2 ^ 51" using a assms(1) by (simp; linarith)
qed

lemma rounded_twice:
  fixes w s z :: rat
  assumes "0 \<le> z" and "\<bar>s - z\<bar> \<le> z / 2 ^ 53" and "\<bar>w - s\<bar> \<le> s / 2 ^ 53"
  shows "\<bar>w - z\<bar> \<le> z / 2 ^ 51"
proof (rule abs_leI)
  note a = abs_le_D1[OF assms(2)] abs_le_D2[OF assms(2)] abs_le_D1[OF assms(3)] abs_le_D2[OF assms(3)]
  show "w - z \<le> z / 2 ^ 51" using a assms(1) by (simp; linarith)
  show "- (w - z) \<le> z / 2 ^ 51" using a assms(1) by (simp; linarith)
qed


lemma abs_scale:
  fixes x y a :: rat
  assumes "0 < a"
  shows "\<bar>x * a - y * a\<bar> = \<bar>x - y\<bar> * a"
proof -
  have "x * a - y * a = (x - y) * a" by (simp add: left_diff_distrib)
  then show ?thesis using assms by (simp add: abs_mult)
qed

section \<open>Properties of the frame channel\<close>

lemma drawFrame_frameCount: "frameCount (drawFrame p d s) = frameCount s"
  by (cases "canvasRef s"; cases "set_src (loadImage p) (formats d) 0") (simp_all add: drawFrame_def)

text \<open>
  C9. Every inbound message adds exactly one to the frame counter, whatever becomes of its
  payload: \<^verbatim>\<open>handleFrame\<close> counts before it draws, and drawing never touches the counter,
  also when the payload loads in none of the three formats or there is no canvas.
\<close>

theorem handleFrame_counts_every_message:
  "frameCount (handleFrame p d s) = frameCount s + 1"
  by (simp add: handleFrame_def drawFrame_frameCount)

lemma set_src_three:
  "set_src load [a, b, c] 0 =
     (case load a of Some img \<Rightarrow> Some img
      | None \<Rightarrow> (case load b of Some img \<Rightarrow> Some img | None \<Rightarrow> load c))"
proof -
  have at2: "set_src load [a, b, c] (Suc (Suc 0)) = load c"
    by (subst set_src.simps) (simp split: option.splits)
  have at1: "set_src load [a, b, c] (Suc 0) = (case load b of Some img \<Rightarrow> Some img | None \<Rightarrow> load c)"
    by (subst set_src.simps) (simp add: at2 split: option.splits)
  show ?thesis
    by (subst set_src.simps) (simp add: at1 split: option.splits)
qed

lemma set_src_formats:
  "set_src load (formats d) 0 = first_decodable load d"
  unfolding formats_def first_decodable_def by (rule set_src_three)

lemma onload_fits:
  assumes sq: "c_width cv = c_height cv" and c: "0 < c_width cv" and cb: "c_width cv < 2 ^ 53"
    and iw: "0 < img_width img" and ih: "0 < img_height img"
  shows "\<exists>x y w h. onload cv img = cv\<lparr>content := [DrawImage img x y w h]\<rparr>
           \<and> centered_aspect_fit cv img x y w h"
proof -
  define C where "C = rat_of_nat (c_width cv)"
  define W where "W = rat_of_nat (img_width img)"
  define H where "H = rat_of_nat (img_height img)"
  define q where "q = W / H"
  define a where "a = fl q"
  have CW: "rat_of_nat (c_width cv) = C" and CH: "rat_of_nat (c_height cv) = C"
    using sq by (simp_all add: C_def)
  have C0: "0 < C" using c by (simp add: C_def)
  have W0: "0 < W" and H0: "0 < H" using iw ih by (simp_all add: W_def H_def)
  have q0: "0 < q" using W0 H0 by (simp add: q_def)
  have a0: "0 < a" unfolding a_def by (rule fl_pos[OF q0])
  have ea: "\<bar>a - q\<bar> \<le> q / 2 ^ 53" unfolding a_def by (rule fl_rel[OF q0])
  have qH: "q * H = W" using H0 by (simp add: q_def)
  show ?thesis
  proof (cases "a > 1")
    case True
    define t where "t = C / a"
    define h where "h = fl t"
    define y where "y = fl (fl (C - h) / 2)"
    have t0: "0 < t" using C0 a0 by (simp add: t_def)
    have tC: "t \<le> C" using True C0 by (simp add: t_def field_simps)
    have h0: "0 < h" unfolding h_def by (rule fl_pos[OF t0])
    have hC: "h \<le> C" unfolding h_def C_def
      by (rule fl_le_nat[OF t0 _ cb]) (use tC in \<open>simp add: C_def\<close>)
    have eh: "\<bar>h - t\<bar> \<le> t / 2 ^ 53" unfolding h_def by (rule fl_rel[OF t0])
    have eq: "onload cv img = cv\<lparr>content := [DrawImage img 0 y C h]\<rparr>"
      using True
      by (simp add: onload_def Let_def CW CH W_def[symmetric] H_def[symmetric] q_def[symmetric]
          a_def[symmetric] t_def[symmetric] h_def[symmetric] y_def[symmetric] fl_zero)
    have z0: "0 \<le> h * q" using h0 q0 by simp
    have "\<bar>h * a - h * q\<bar> = \<bar>a - q\<bar> * h"
      using abs_scale[OF h0, of a q] by (simp add: mult.commute)
    also have "\<dots> \<le> (q / 2 ^ 53) * h" using ea h0 by (simp add: mult_right_mono)
    finally have e1: "\<bar>h * a - h * q\<bar> \<le> h * q / 2 ^ 53" by (simp add: mult.commute)
    have ta: "t * a = C" using a0 by (simp add: t_def)
    have "\<bar>h * a - C\<bar> = \<bar>h - t\<bar> * a"
      using abs_scale[OF a0, of h t] by (simp only: ta)
    also have "\<dots> \<le> (t / 2 ^ 53) * a" using eh a0 by (simp add: mult_right_mono)
    also have "\<dots> = C / 2 ^ 53" using ta by simp
    finally have e2: "\<bar>h * a - C\<bar> \<le> C / 2 ^ 53" .
    have r: "\<bar>C - h * q\<bar> \<le> h * q / 2 ^ 51" by (rule two_roundings[OF z0 e1 e2])
    have hW: "h * q * H = h * W" using qH by (simp add: mult.assoc)
    have "\<bar>C * H - h * W\<bar> = \<bar>C - h * q\<bar> * H"
      using abs_scale[OF H0, of C "h * q"] by (simp only: hW)
    also have "\<dots> \<le> (h * q / 2 ^ 51) * H" using r H0 by (simp add: mult_right_mono)
    also have "\<dots> = h * W / 2 ^ 51" using hW by simp
    finally have ratio: "\<bar>C * H - h * W\<bar> \<le> h * W / 2 ^ 51" .
    have d: "0 \<le> C - h" "C - h \<le> C" using hC h0 by simp_all
    from margin[OF d] have my: "0 \<le> y" "\<bar>y + h + y - C\<bar> \<le> C / 2 ^ 51"
      by (simp_all add: y_def)
    have "centered_aspect_fit cv img 0 y C h"
      unfolding centered_aspect_fit_def CW CH W_def[symmetric] H_def[symmetric]
      using C0 h0 hC ratio my by simp
    with eq show ?thesis by blast
  next
    case False
    define s where "s = C * a"
    define w where "w = fl s"
    define x where "x = fl (fl (C - w) / 2)"
    have s0: "0 < s" using C0 a0 by (simp add: s_def)
    have sC: "s \<le> C" using False C0 by (simp add: s_def mult_left_le)
    have w0: "0 < w" unfolding w_def by (rule fl_pos[OF s0])
    have wC: "w \<le> C" unfolding w_def C_def
      by (rule fl_le_nat[OF s0 _ cb]) (use sC in \<open>simp add: C_def\<close>)
    have ew: "\<bar>w - s\<bar> \<le> s / 2 ^ 53" unfolding w_def by (rule fl_rel[OF s0])
    have eq: "onload cv img = cv\<lparr>content := [DrawImage img x 0 w C]\<rparr>"
      using False
      by (simp add: onload_def Let_def CW CH W_def[symmetric] H_def[symmetric] q_def[symmetric]
          a_def[symmetric] s_def[symmetric] w_def[symmetric] x_def[symmetric] fl_zero)
    have z0: "0 \<le> C * q" using C0 q0 by simp
    have "\<bar>s - C * q\<bar> = \<bar>a - q\<bar> * C"
      using abs_scale[OF C0, of a q] by (simp add: s_def mult.commute)
    also have "\<dots> \<le> (q / 2 ^ 53) * C" using ea C0 by (simp add: mult_right_mono)
    finally have e1: "\<bar>s - C * q\<bar> \<le> C * q / 2 ^ 53" by (simp add: mult.commute)
    have r: "\<bar>w - C * q\<bar> \<le> C * q / 2 ^ 51" by (rule rounded_twice[OF z0 e1 ew])
    have CqH: "C * q * H = C * W" using qH by (simp add: mult.assoc)
    have "\<bar>w * H - C * W\<bar> = \<bar>w - C * q\<bar> * H"
      using abs_scale[OF H0, of w "C * q"] by (simp only: CqH)
    also have "\<dots> \<le> (C * q / 2 ^ 51) * H" using r H0 by (simp add: mult_right_mono)
    also have "\<dots> = C * W / 2 ^ 51" using CqH by simp
    finally have ratio: "\<bar>w * H - C * W\<bar> \<le> C * W / 2 ^ 51" .
    have d: "0 \<le> C - w" "C - w \<le> C" using wC w0 by simp_all
    from margin[OF d] have mx: "0 \<le> x" "\<bar>x + w + x - C\<bar> \<le> C / 2 ^ 51"
      by (simp_all add: x_def)
    have "centered_aspect_fit cv img x 0 w C"
      unfolding centered_aspect_fit_def CW CH W_def[symmetric] H_def[symmetric]
      using C0 w0 wC ratio mx by simp
    with eq show ?thesis by blast
  qed
qed

text \<open>
  Two images on the page's canvas: a 600 by 300 image, where every intermediate result is a
  double, and a 7 by 3 image, drawn with height 128.57142857142856 and top margin
  85.71428571428572 (the doubles are written as fractions).
\<close>

lemma onload_600_300:
  "onload \<lparr>c_width = 300, c_height = 300, has2d = True, content = []\<rparr>
          \<lparr>img_width = 600, img_height = 300\<rparr> =
   \<lparr>c_width = 300, c_height = 300, has2d = True,
     content = [DrawImage \<lparr>img_width = 600, img_height = 300\<rparr> 0 75 300 150]\<rparr>"
  by code_simp

lemma onload_7_3:
  "onload \<lparr>c_width = 300, c_height = 300, has2d = True, content = []\<rparr>
          \<lparr>img_width = 7, img_height = 3\<rparr> =
   \<lparr>c_width = 300, c_height = 300, has2d = True,
     content = [DrawImage \<lparr>img_width = 7, img_height = 3\<rparr> 0
                  (1507901660949943 / 17592186044416) 300
                  (1130926245712457 / 8796093022208)]\<rparr>"
  by code_simp

text \<open>
  C2. With the canvas mounted and its 2d context available, \<^verbatim>\<open>drawFrame\<close> reads the
  payload as a bitmap, then as a JPEG, then as a PNG, and stops at the first that loads.
  That image replaces the content of the canvas; on a square canvas (the page renders 300
  by 300) an image of positive size is drawn centered and aspect-fit, to the precision of
  the page's double arithmetic. When none of the three loads, the only change to the page
  is one more \<^verbatim>\<open>console.error\<close> message: the canvas, the status, the connection and every
  counter stay as they were.
\<close>

theorem drawFrame_first_decodable:
  assumes "canvasRef s = Some cv" and "has2d cv"
  shows "drawFrame p d s =
           (case first_decodable (loadImage p) d of
              Some img \<Rightarrow> s\<lparr>canvasRef := Some (onload cv img)\<rparr>
            | None \<Rightarrow> s\<lparr>console_error := console_error s @ [''Failed to load image in any format'']\<rparr>)
         \<and> (\<forall>img. c_width cv = c_height cv \<and> 0 < c_width cv \<and> c_width cv < 2 ^ 53
                 \<and> 0 < img_width img \<and> 0 < img_height img \<longrightarrow>
               (\<exists>x y w h. onload cv img = cv\<lparr>content := [DrawImage img x y w h]\<rparr>
                   \<and> centered_aspect_fit cv img x y w h))"
proof -
  have a: "drawFrame p d s =
           (case first_decodable (loadImage p) d of
              Some img \<Rightarrow> s\<lparr>canvasRef := Some (onload cv img)\<rparr>
            | None \<Rightarrow> s\<lparr>console_error := console_error s @ [''Failed to load image in any format'']\<rparr>)"
    using assms by (simp add: drawFrame_def set_src_formats split: option.splits)
  have b: "\<exists>x y w h. onload cv img = cv\<lparr>content := [DrawImage img x y w h]\<rparr>
                   \<and> centered_aspect_fit cv img x y w h"
    if "c_width cv = c_height cv \<and> 0 < c_width cv \<and> c_width cv < 2 ^ 53
                 \<and> 0 < img_width img \<and> 0 < img_height img" for img
    using that onload_fits[of cv img] by blast
  from a b show ?thesis by blast
qed

theorem drawFrame_first_decodable_witness:
  "canvasRef mounted = Some \<lparr>c_width = 300, c_height = 300, has2d = True, content = []\<rparr>
   \<and> first_decodable (loadImage jpeg_only) ''QUJD'' = Some \<lparr>img_width = 600, img_height = 300\<rparr>
   \<and> drawFrame jpeg_only ''QUJD'' mounted =
       mounted\<lparr>canvasRef := Some \<lparr>c_width = 300, c_height = 300, has2d = True,
         content = [DrawImage \<lparr>img_width = 600, img_height = 300\<rparr> 0 75 300 150]\<rparr>\<rparr>
   \<and> centered_aspect_fit \<lparr>c_width = 300, c_height = 300, has2d = True, content = []\<rparr>
         \<lparr>img_width = 600, img_height = 300\<rparr> 0 75 300 150
   \<and> centered_aspect_fit \<lparr>c_width = 300, c_height = 300, has2d = True, content = []\<rparr>
         \<lparr>img_width = 7, img_height = 3\<rparr>
         0 (1507901660949943 / 17592186044416) 300 (1130926245712457 / 8796093022208)
   \<and> drawFrame jpeg_only ''AAAA'' mounted =
       mounted\<lparr>console_error := [''Failed to load image in any format'']\<rparr>"
proof -
  have cv: "canvasRef mounted = Some \<lparr>c_width = 300, c_height = 300, has2d = True, content = []\<rparr>"
    by (simp add: mounted_def)
  have ctx: "has2d \<lparr>c_width = 300, c_height = 300, has2d = True, content = []\<rparr>" by simp
  have fd: "first_decodable (loadImage jpeg_only) ''QUJD'' = Some \<lparr>img_width = 600, img_height = 300\<rparr>"
    by (simp add: first_decodable_def jpeg_only_def)
  have fd2: "first_decodable (loadImage jpeg_only) ''AAAA'' = None"
    by (simp add: first_decodable_def jpeg_only_def)
  note ol = onload_600_300
  have fit: "centered_aspect_fit \<lparr>c_width = 300, c_height = 300, has2d = True, content = []\<rparr>
         \<lparr>img_width = 600, img_height = 300\<rparr> 0 75 300 150"
    by (simp add: centered_aspect_fit_def)
  have fit73: "centered_aspect_fit \<lparr>c_width = 300, c_height = 300, has2d = True, content = []\<rparr>
         \<lparr>img_width = 7, img_height = 3\<rparr>
         0 (1507901660949943 / 17592186044416) 300 (1130926245712457 / 8796093022208)"
    by (simp add: centered_aspect_fit_def)
  have ce: "console_error mounted = []" by (simp add: mounted_def)
  from drawFrame_first_decodable[OF cv ctx, of jpeg_only "''QUJD''"] fd ol
  have a: "drawFrame jpeg_only ''QUJD'' mounted =
       mounted\<lparr>canvasRef := Some \<lparr>c_width = 300, c_height = 300, has2d = True,
         content = [DrawImage \<lparr>img_width = 600, img_height = 300\<rparr> 0 75 300 150]\<rparr>\<rparr>"
    by simp
  from drawFrame_first_decodable[OF cv ctx, of jpeg_only "''AAAA''"] fd2 ce
  have b: "drawFrame jpeg_only ''AAAA'' mounted =
       mounted\<lparr>console_error := [''Failed to load image in any format'']\<rparr>"
    by simp
  from cv fd a fit fit73 b show ?thesis by blast
qed

section \<open>Properties of the transcode stage\<close>

lemma createVideoBlob_not_ready:
  "ffmpegRef s = None \<or> \<not> loaded \<Longrightarrow>
   createVideoBlob p isoNow loaded s =
     convert_failed (s\<lparr>showDownload := True, conversionStatus := ''Processing video...'',
                        conversionProgress := 0\<rparr>)"
  by (auto simp: createVideoBlob_def Let_def split: option.splits)

lemma createVideoBlob_exec_rejects:
  assumes "ffmpegRef s = Some ff"
    and "ffmpegRun p ffmpeg_args (files (writeFile ff ''input.webm'' (concat (recordedChunksRef s)))) = Inl e"
  shows "createVideoBlob p isoNow True s =
     convert_failed (s\<lparr>showDownload := True, conversionStatus := ''Processing video...'',
                        conversionProgress := 0,
                        ffmpegRef := Some ((writeFile ff ''input.webm'' (concat (recordedChunksRef s)))
                           \<lparr>calls := calls ff @ [WriteFile ''input.webm'' (concat (recordedChunksRef s)),
                                                  Exec ffmpeg_args]\<rparr>)\<rparr>)"
  using assms by (simp add: createVideoBlob_def Let_def exec_def writeFile_def)

lemma createVideoBlob_no_output:
  assumes "ffmpegRef s = Some ff"
    and "ffmpegRun p ffmpeg_args (files (writeFile ff ''input.webm'' (concat (recordedChunksRef s)))) = Inr fs"
    and "map_of fs ''output.mp4'' = None"
  shows "createVideoBlob p isoNow True s =
     convert_failed (s\<lparr>showDownload := True, conversionStatus := ''Processing video...'',
                        conversionProgress := 0,
                        ffmpegRef := Some (ff\<lparr>files := fs,
                           calls := calls ff @ [WriteFile ''input.webm'' (concat (recordedChunksRef s)),
                                                  Exec ffmpeg_args, ReadFile ''output.mp4'']\<rparr>)\<rparr>)"
  using assms by (simp add: createVideoBlob_def Let_def exec_def writeFile_def readFile_def)

lemma createVideoBlob_success:
  assumes "ffmpegRef s = Some ff"
    and "ffmpegRun p ffmpeg_args (files (writeFile ff ''input.webm'' (concat (recordedChunksRef s)))) = Inr fs"
    and "map_of fs ''output.mp4'' = Some data"
  shows "createVideoBlob p isoNow True s =
     s\<lparr>showDownload := True, conversionStatus := ''MP4 video ready for download!'',
       conversionProgress := 100,
       ffmpegRef := Some (ff\<lparr>files := fs,
          calls := calls ff @ [WriteFile ''input.webm'' (concat (recordedChunksRef s)),
                              Exec ffmpeg_args, ReadFile ''output.mp4'']\<rparr>),
       objectURLs := objectURLs s @ [(''blob:'' @ toString_nat (length (objectURLs s)), data)],
       downloadUrl := ''blob:'' @ toString_nat (length (objectURLs s)),
       downloadFilename := ''recorded_video_'' @ replace_colons (take 19 isoNow) @ ''.mp4'',
       status := ''Video ready for download''\<rparr>"
  using assms
  by (simp add: createVideoBlob_def Let_def exec_def writeFile_def readFile_def createObjectURL_def)

lemma job_calls_cases:
  assumes "ffmpegRef s = Some ff"
  shows "job_calls p isoNow True s =
           [WriteFile ''input.webm'' (concat (recordedChunksRef s)), Exec ffmpeg_args]
         \<or> job_calls p isoNow True s =
           [WriteFile ''input.webm'' (concat (recordedChunksRef s)), Exec ffmpeg_args,
            ReadFile ''output.mp4'']"
proof (cases "ffmpegRun p ffmpeg_args (files (writeFile ff ''input.webm'' (concat (recordedChunksRef s))))")
  case (Inl e)
  show ?thesis
    by (simp add: job_calls_def calls_of_def assms createVideoBlob_exec_rejects[OF assms Inl]
        convert_failed_def)
next
  case (Inr fs)
  show ?thesis
  proof (cases "map_of fs ''output.mp4''")
    case None
    show ?thesis
      by (simp add: job_calls_def calls_of_def assms createVideoBlob_no_output[OF assms Inr None]
          convert_failed_def)
  next
    case (Some data)
    show ?thesis
      by (simp add: job_calls_def calls_of_def assms createVideoBlob_success[OF assms Inr Some])
  qed
qed

lemma job_calls_not_ready:
  "ffmpegRef s = None \<or> \<not> loaded \<Longrightarrow> job_calls p isoNow loaded s = []"
  by (simp add: job_calls_def calls_of_def createVideoBlob_not_ready convert_failed_def)

lemma step_keeps_result:
  assumes "\<not> starts_job e s"
  shows "conversionStatus (step p e s) = conversionStatus s
         \<and> downloadFilename (step p e s) = downloadFilename s
         \<and> downloadUrl (step p e s) = downloadUrl s
         \<and> objectURLs (step p e s) = objectURLs s"
proof (cases e)
  case (RunTask isoNow)
  with assms show ?thesis
    by (auto simp: starts_job_def run_task_def ondataavailable_def updateFileSize_def Let_def
        split: list.splits task.splits option.splits)
next
  case (SocketMessage d)
  then show ?thesis
    by (cases "wsRef s"; cases "canvasRef s"; cases "set_src (loadImage p) (formats d) 0")
       (simp_all add: handleFrame_def drawFrame_def)
qed (auto simp: initFFmpeg_def connect_def disconnect_def stopRecording_def stopRecording_seen_def
      recorder_stop_def ws_onopen_def ws_onerror_def ws_onclose_def startRecording_def
      updateRecordingTime_def ondataavailable_def updateFileSize_def Let_def
      split: option.splits)

lemma run_events_keeps_result:
  "no_job p es s \<Longrightarrow>
   conversionStatus (run_events p es s) = conversionStatus s
   \<and> downloadFilename (run_events p es s) = downloadFilename s
   \<and> downloadUrl (run_events p es s) = downloadUrl s
   \<and> objectURLs (run_events p es s) = objectURLs s"
proof (induction es arbitrary: s)
  case Nil
  then show ?case by simp
next
  case (Cons e es)
  then have a: "\<not> starts_job e s" and b: "no_job p es (step p e s)" by auto
  from Cons.IH[OF b] step_keeps_result[OF a, of p] show ?case by simp
qed

lemma replace_colons_digits: "list_all is_digit xs \<Longrightarrow> replace_colons xs = xs"
  by (induction xs) (auto simp: replace_colons_def is_digit_def)

lemma replace_colons_append: "replace_colons (xs @ ys) = replace_colons xs @ replace_colons ys"
  by (simp add: replace_colons_def)

lemma recorded_facts:
  "ffmpegRef recorded = Some \<lparr>files = [], calls = []\<rparr>"
  "recordedChunksRef recorded = [[1, 2], [3]]"
  "objectURLs recorded = []"
  "tasks recorded = []"
  "downloadUrl recorded = []"
  "downloadFilename recorded = []"
  by (simp_all add: recorded_def mounted_def)

lemma transcoding_run:
  "ffmpegRun transcoding ffmpeg_args
     (files (writeFile \<lparr>files = [], calls = []\<rparr> ''input.webm'' (concat [[1, 2], [3]]))) =
   Inr [(''output.mp4'', [3, 2, 1]), (''input.webm'', [1, 2, 3])]"
  by (simp add: transcoding_def writeFile_def)

text \<open>
  C3. With the engine loaded, a transcode makes exactly one \<^verbatim>\<open>exec\<close> call, on the fixed
  command line: input \<^verbatim>\<open>input.webm\<close>, video codec libx264 with preset fast and CRF 23, audio
  codec aac at 128k, output \<^verbatim>\<open>output.mp4\<close>. The call follows the write of the recording (all
  chunks, concatenated) to \<^verbatim>\<open>input.webm\<close>, and is followed by at most the read of
  \<^verbatim>\<open>output.mp4\<close>. When the toolkit leaves that file, its bytes are the blob behind the new
  download URL and the job reports success with progress 100.
\<close>

theorem createVideoBlob_fixed_pipeline:
  assumes "ffmpegRef s = Some ff"
  shows "(job_calls p isoNow True s =
            [WriteFile ''input.webm'' (concat (recordedChunksRef s)),
             Exec [''-i'', ''input.webm'', ''-c:v'', ''libx264'', ''-preset'', ''fast'',
                   ''-crf'', ''23'', ''-c:a'', ''aac'', ''-b:a'', ''128k'', ''output.mp4'']]
          \<or> job_calls p isoNow True s =
            [WriteFile ''input.webm'' (concat (recordedChunksRef s)),
             Exec [''-i'', ''input.webm'', ''-c:v'', ''libx264'', ''-preset'', ''fast'',
                   ''-crf'', ''23'', ''-c:a'', ''aac'', ''-b:a'', ''128k'', ''output.mp4''],
             ReadFile ''output.mp4''])
         \<and> (\<forall>fs data.
               ffmpegRun p ffmpeg_args
                 (files (writeFile ff ''input.webm'' (concat (recordedChunksRef s)))) = Inr fs
               \<and> map_of fs ''output.mp4'' = Some data \<longrightarrow>
               objectURLs (createVideoBlob p isoNow True s) =
                 objectURLs s @ [(downloadUrl (createVideoBlob p isoNow True s), data)]
               \<and> conversionStatus (createVideoBlob p isoNow True s) = ''MP4 video ready for download!''
               \<and> conversionProgress (createVideoBlob p isoNow True s) = 100)"
proof -
  have a: "ffmpeg_args = [''-i'', ''input.webm'', ''-c:v'', ''libx264'', ''-preset'', ''fast'',
                   ''-crf'', ''23'', ''-c:a'', ''aac'', ''-b:a'', ''128k'', ''output.mp4'']"
    by (simp add: ffmpeg_args_def)
  have b: "objectURLs (createVideoBlob p isoNow True s) =
                 objectURLs s @ [(downloadUrl (createVideoBlob p isoNow True s), data)]
               \<and> conversionStatus (createVideoBlob p isoNow True s) = ''MP4 video ready for download!''
               \<and> conversionProgress (createVideoBlob p isoNow True s) = 100"
    if "ffmpegRun p ffmpeg_args
          (files (writeFile ff ''input.webm'' (concat (recordedChunksRef s)))) = Inr fs"
      and "map_of fs ''output.mp4'' = Some data" for fs data
    by (simp add: createVideoBlob_success[OF assms that])
  from job_calls_cases[OF assms, of p isoNow] b show ?thesis
    unfolding a by blast
qed

theorem createVideoBlob_fixed_pipeline_witness:
  "ffmpegRef recorded = Some \<lparr>files = [], calls = []\<rparr>
   \<and> job_calls transcoding ''2024-01-15T10:30:45.123Z'' True recorded =
       [WriteFile ''input.webm'' [1, 2, 3],
        Exec [''-i'', ''input.webm'', ''-c:v'', ''libx264'', ''-preset'', ''fast'',
              ''-crf'', ''23'', ''-c:a'', ''aac'', ''-b:a'', ''128k'', ''output.mp4''],
        ReadFile ''output.mp4'']
   \<and> objectURLs (createVideoBlob transcoding ''2024-01-15T10:30:45.123Z'' True recorded) =
       [(downloadUrl (createVideoBlob transcoding ''2024-01-15T10:30:45.123Z'' True recorded),
         [3, 2, 1])]"
proof -
  note ff = recorded_facts(1)
  have m: "map_of [(''output.mp4'', [3, 2, 1 :: 8 word]), (''input.webm'', [1, 2, 3])] ''output.mp4''
             = Some [3, 2, 1]"
    by simp
  have run: "ffmpegRun transcoding ffmpeg_args
     (files (writeFile \<lparr>files = [], calls = []\<rparr> ''input.webm'' (concat (recordedChunksRef recorded)))) =
   Inr [(''output.mp4'', [3, 2, 1]), (''input.webm'', [1, 2, 3])]"
    using transcoding_run by (simp add: recorded_facts)
  from createVideoBlob_fixed_pipeline[OF ff, of transcoding "''2024-01-15T10:30:45.123Z''"] run m
  have u: "objectURLs (createVideoBlob transcoding ''2024-01-15T10:30:45.123Z'' True recorded) =
       [(downloadUrl (createVideoBlob transcoding ''2024-01-15T10:30:45.123Z'' True recorded),
         [3, 2, 1])]"
    by (simp add: recorded_facts)
  have c: "job_calls transcoding ''2024-01-15T10:30:45.123Z'' True recorded =
       [WriteFile ''input.webm'' [1, 2, 3],
        Exec [''-i'', ''input.webm'', ''-c:v'', ''libx264'', ''-preset'', ''fast'',
              ''-crf'', ''23'', ''-c:a'', ''aac'', ''-b:a'', ''128k'', ''output.mp4''],
        ReadFile ''output.mp4'']"
    by (simp add: job_calls_def calls_of_def createVideoBlob_success[OF ff run m] recorded_facts
        ffmpeg_args_def)
  from ff u c show ?thesis by blast
qed

text \<open>
  C1, as stated, fails: two consecutive jobs on the same page both write \<^verbatim>\<open>input.webm\<close> and
  both read \<^verbatim>\<open>output.mp4\<close>.
\<close>

theorem createVideoBlob_reuses_names_counterexample:
  "job_names transcoding ''2024-01-15T10:30:45.123Z'' True recorded = [''input.webm'', ''output.mp4'']
   \<and> job_names transcoding ''2024-01-15T10:31:50.000Z'' True recorded_again =
       [''input.webm'', ''output.mp4'']"
proof -
  note ff = recorded_facts(1)
  have m: "map_of [(''output.mp4'', [3, 2, 1 :: 8 word]), (''input.webm'', [1, 2, 3])] ''output.mp4''
             = Some [3, 2, 1]"
    by simp
  have run: "ffmpegRun transcoding ffmpeg_args
     (files (writeFile \<lparr>files = [], calls = []\<rparr> ''input.webm'' (concat (recordedChunksRef recorded)))) =
   Inr [(''output.mp4'', [3, 2, 1]), (''input.webm'', [1, 2, 3])]"
    using transcoding_run by (simp add: recorded_facts)
  note first = createVideoBlob_success[OF ff run m, of "''2024-01-15T10:30:45.123Z''"]
  have one: "job_names transcoding ''2024-01-15T10:30:45.123Z'' True recorded =
               [''input.webm'', ''output.mp4'']"
    by (simp add: job_names_def job_calls_def calls_of_def first recorded_facts call_names_def)
  have ff2: "ffmpegRef recorded_again =
      Some \<lparr>files = [(''output.mp4'', [3, 2, 1]), (''input.webm'', [1, 2, 3])],
            calls = [WriteFile ''input.webm'' [1, 2, 3], Exec ffmpeg_args, ReadFile ''output.mp4'']\<rparr>"
    by (simp add: recorded_again_def first recorded_facts)
  have ch2: "recordedChunksRef recorded_again = [[4]]"
    by (simp add: recorded_again_def)
  have run2: "ffmpegRun transcoding ffmpeg_args
     (files (writeFile \<lparr>files = [(''output.mp4'', [3, 2, 1]), (''input.webm'', [1, 2, 3])],
            calls = [WriteFile ''input.webm'' [1, 2, 3], Exec ffmpeg_args, ReadFile ''output.mp4'']\<rparr>
         ''input.webm'' (concat (recordedChunksRef recorded_again)))) =
       Inr [(''output.mp4'', [4]), (''input.webm'', [4]), (''output.mp4'', [3, 2, 1])]"
    by (simp add: ch2 transcoding_def writeFile_def)
  have m2: "map_of [(''output.mp4'', [4 :: 8 word]), (''input.webm'', [4]), (''output.mp4'', [3, 2, 1])]
              ''output.mp4'' = Some [4]"
    by simp
  note second = createVideoBlob_success[OF ff2 run2 m2, of "''2024-01-15T10:31:50.000Z''"]
  have two: "job_names transcoding ''2024-01-15T10:31:50.000Z'' True recorded_again =
               [''input.webm'', ''output.mp4'']"
    by (simp add: job_names_def job_calls_def calls_of_def second ff2 call_names_def)
  from one two show ?thesis by blast
qed

lemma recorded_again_facts:
  "ffmpegRef recorded_again =
      Some \<lparr>files = [(''output.mp4'', [3, 2, 1]), (''input.webm'', [1, 2, 3])],
            calls = [WriteFile ''input.webm'' [1, 2, 3], Exec ffmpeg_args, ReadFile ''output.mp4'']\<rparr>"
  "recordedChunksRef recorded_again = [[4]]"
  "objectURLs recorded_again = [(''blob:0'', [3, 2, 1])]"
  "downloadUrl recorded_again = ''blob:0''"
  "conversionStatus recorded_again = ''MP4 video ready for download!''"
proof -
  note ff = recorded_facts(1)
  have m: "map_of [(''output.mp4'', [3, 2, 1 :: 8 word]), (''input.webm'', [1, 2, 3])] ''output.mp4''
             = Some [3, 2, 1]"
    by simp
  have run: "ffmpegRun transcoding ffmpeg_args
     (files (writeFile \<lparr>files = [], calls = []\<rparr> ''input.webm'' (concat (recordedChunksRef recorded)))) =
   Inr [(''output.mp4'', [3, 2, 1]), (''input.webm'', [1, 2, 3])]"
    using transcoding_run by (simp add: recorded_facts)
  note first = createVideoBlob_success[OF ff run m, of "''2024-01-15T10:30:45.123Z''"]
  have z: "toString_nat 0 = ''0''" by code_simp
  show "ffmpegRef recorded_again =
      Some \<lparr>files = [(''output.mp4'', [3, 2, 1]), (''input.webm'', [1, 2, 3])],
            calls = [WriteFile ''input.webm'' [1, 2, 3], Exec ffmpeg_args, ReadFile ''output.mp4'']\<rparr>"
    by (simp add: recorded_again_def first recorded_facts)
  show "recordedChunksRef recorded_again = [[4]]"
    by (simp add: recorded_again_def)
  show "objectURLs recorded_again = [(''blob:0'', [3, 2, 1])]"
    by (simp add: recorded_again_def first recorded_facts z)
  show "downloadUrl recorded_again = ''blob:0''"
    by (simp add: recorded_again_def first recorded_facts z)
  show "conversionStatus recorded_again = ''MP4 video ready for download!''"
    by (simp add: recorded_again_def first recorded_facts)
qed

lemma writeFile_one_input:
  "map_of (files (writeFile ff name data)) name = Some data
   \<and> length (filter (\<lambda>(n, _). n = name) (files (writeFile ff name data))) = 1"
proof -
  have f: "filter (\<lambda>(n, _). n = name) (filter (\<lambda>(n, _). n \<noteq> name) xs) = []"
    for xs :: "(string \<times> Blob) list"
    by (induction xs) auto
  from f show ?thesis by (simp add: writeFile_def)
qed

lemma job_calls_rejects:
  assumes "ffmpegRef s = Some ff"
    and "ffmpegRun p ffmpeg_args (files (writeFile ff ''input.webm'' (concat (recordedChunksRef s)))) = Inl e"
  shows "job_calls p isoNow True s =
           [WriteFile ''input.webm'' (concat (recordedChunksRef s)), Exec ffmpeg_args]"
    and "ffmpegRef (createVideoBlob p isoNow True s) =
           Some (ff\<lparr>files := files (writeFile ff ''input.webm'' (concat (recordedChunksRef s))),
                   calls := calls ff @ [WriteFile ''input.webm'' (concat (recordedChunksRef s)),
                                        Exec ffmpeg_args]\<rparr>)"
  by (simp_all add: job_calls_def calls_of_def assms(1) createVideoBlob_exec_rejects[OF assms]
        convert_failed_def writeFile_def)

lemma job_calls_resolves:
  assumes "ffmpegRef s = Some ff"
    and "ffmpegRun p ffmpeg_args (files (writeFile ff ''input.webm'' (concat (recordedChunksRef s)))) = Inr fs"
  shows "job_calls p isoNow True s =
           [WriteFile ''input.webm'' (concat (recordedChunksRef s)), Exec ffmpeg_args,
            ReadFile ''output.mp4'']"
    and "ffmpegRef (createVideoBlob p isoNow True s) =
           Some (ff\<lparr>files := fs,
                   calls := calls ff @ [WriteFile ''input.webm'' (concat (recordedChunksRef s)),
                                        Exec ffmpeg_args, ReadFile ''output.mp4'']\<rparr>)"
proof -
  show "job_calls p isoNow True s =
           [WriteFile ''input.webm'' (concat (recordedChunksRef s)), Exec ffmpeg_args,
            ReadFile ''output.mp4'']"
  proof (cases "map_of fs ''output.mp4''")
    case None
    show ?thesis
      by (simp add: job_calls_def calls_of_def assms(1) createVideoBlob_no_output[OF assms None]
          convert_failed_def)
  next
    case (Some data)
    show ?thesis
      by (simp add: job_calls_def calls_of_def assms(1) createVideoBlob_success[OF assms Some])
  qed
  show "ffmpegRef (createVideoBlob p isoNow True s) =
           Some (ff\<lparr>files := fs,
                   calls := calls ff @ [WriteFile ''input.webm'' (concat (recordedChunksRef s)),
                                        Exec ffmpeg_args, ReadFile ''output.mp4'']\<rparr>)"
  proof (cases "map_of fs ''output.mp4''")
    case None
    show ?thesis
      by (simp add: createVideoBlob_no_output[OF assms None] convert_failed_def)
  next
    case (Some data)
    show ?thesis
      by (simp add: createVideoBlob_success[OF assms Some])
  qed
qed

text \<open>
  C1, amended. Every transcode job that reaches the engine uses the same fixed pair of
  virtual file names. It writes its recording to \<^verbatim>\<open>input.webm\<close>, replacing any earlier file of
  that name, and runs the command on the resulting files: exactly one of them is named
  \<^verbatim>\<open>input.webm\<close>, and it holds this job's recording. When \<^verbatim>\<open>exec\<close> rejects, the job has
  named \<^verbatim>\<open>input.webm\<close> only and the files stay as written. When \<^verbatim>\<open>exec\<close> does not reject,
  the job goes on to read \<^verbatim>\<open>output.mp4\<close> from the files the command left. A job that finds
  the engine not loaded names no file.
\<close>

theorem createVideoBlob_fixed_names:
  assumes "ffmpegRef s = Some ff"
  shows "map_of (files (writeFile ff ''input.webm'' (concat (recordedChunksRef s)))) ''input.webm''
             = Some (concat (recordedChunksRef s))
         \<and> length (filter (\<lambda>(n, _). n = ''input.webm'')
              (files (writeFile ff ''input.webm'' (concat (recordedChunksRef s))))) = 1
         \<and> (\<forall>e. ffmpegRun p ffmpeg_args
                   (files (writeFile ff ''input.webm'' (concat (recordedChunksRef s)))) = Inl e \<longrightarrow>
               job_calls p isoNow True s =
                 [WriteFile ''input.webm'' (concat (recordedChunksRef s)), Exec ffmpeg_args]
               \<and> job_names p isoNow True s = [''input.webm'']
               \<and> ffmpegRef (createVideoBlob p isoNow True s) =
                   Some (ff\<lparr>files := files (writeFile ff ''input.webm'' (concat (recordedChunksRef s))),
                           calls := calls ff @ [WriteFile ''input.webm'' (concat (recordedChunksRef s)),
                                                Exec ffmpeg_args]\<rparr>))
         \<and> (\<forall>fs. ffmpegRun p ffmpeg_args
                   (files (writeFile ff ''input.webm'' (concat (recordedChunksRef s)))) = Inr fs \<longrightarrow>
               job_calls p isoNow True s =
                 [WriteFile ''input.webm'' (concat (recordedChunksRef s)), Exec ffmpeg_args,
                  ReadFile ''output.mp4'']
               \<and> job_names p isoNow True s = [''input.webm'', ''output.mp4'']
               \<and> ffmpegRef (createVideoBlob p isoNow True s) =
                   Some (ff\<lparr>files := fs,
                           calls := calls ff @ [WriteFile ''input.webm'' (concat (recordedChunksRef s)),
                                                Exec ffmpeg_args, ReadFile ''output.mp4'']\<rparr>)
               \<and> (\<forall>data. map_of fs ''output.mp4'' = Some data \<longrightarrow>
                     objectURLs (createVideoBlob p isoNow True s) =
                       objectURLs s @ [(downloadUrl (createVideoBlob p isoNow True s), data)]))
         \<and> job_names p isoNow False s = []"
proof -
  note w = writeFile_one_input[of ff "''input.webm''" "concat (recordedChunksRef s)"]
  have a: "job_calls p isoNow True s =
                 [WriteFile ''input.webm'' (concat (recordedChunksRef s)), Exec ffmpeg_args]
               \<and> job_names p isoNow True s = [''input.webm'']
               \<and> ffmpegRef (createVideoBlob p isoNow True s) =
                   Some (ff\<lparr>files := files (writeFile ff ''input.webm'' (concat (recordedChunksRef s))),
                           calls := calls ff @ [WriteFile ''input.webm'' (concat (recordedChunksRef s)),
                                                Exec ffmpeg_args]\<rparr>)"
    if h: "ffmpegRun p ffmpeg_args
             (files (writeFile ff ''input.webm'' (concat (recordedChunksRef s)))) = Inl e" for e
    using job_calls_rejects[OF assms h, of isoNow]
    by (simp add: job_names_def call_names_def)
  have b: "job_calls p isoNow True s =
                 [WriteFile ''input.webm'' (concat (recordedChunksRef s)), Exec ffmpeg_args,
                  ReadFile ''output.mp4'']
               \<and> job_names p isoNow True s = [''input.webm'', ''output.mp4'']
               \<and> ffmpegRef (createVideoBlob p isoNow True s) =
                   Some (ff\<lparr>files := fs,
                           calls := calls ff @ [WriteFile ''input.webm'' (concat (recordedChunksRef s)),
                                                Exec ffmpeg_args, ReadFile ''output.mp4'']\<rparr>)
               \<and> (\<forall>data. map_of fs ''output.mp4'' = Some data \<longrightarrow>
                     objectURLs (createVideoBlob p isoNow True s) =
                       objectURLs s @ [(downloadUrl (createVideoBlob p isoNow True s), data)])"
    if h: "ffmpegRun p ffmpeg_args
             (files (writeFile ff ''input.webm'' (concat (recordedChunksRef s)))) = Inr fs" for fs
  proof -
    have r: "objectURLs (createVideoBlob p isoNow True s) =
                       objectURLs s @ [(downloadUrl (createVideoBlob p isoNow True s), data)]"
      if "map_of fs ''output.mp4'' = Some data" for data
      by (simp add: createVideoBlob_success[OF assms h that])
    from job_calls_resolves[OF assms h, of isoNow] r show ?thesis
      by (simp add: job_names_def call_names_def)
  qed
  have c: "job_names p isoNow False s = []"
    by (simp add: job_names_def job_calls_not_ready)
  from w a b c show ?thesis by blast
qed

theorem createVideoBlob_fixed_names_witness:
  "ffmpegRef recorded_again =
      Some \<lparr>files = [(''output.mp4'', [3, 2, 1]), (''input.webm'', [1, 2, 3])],
            calls = [WriteFile ''input.webm'' [1, 2, 3], Exec ffmpeg_args, ReadFile ''output.mp4'']\<rparr>
   \<and> files (writeFile
         \<lparr>files = [(''output.mp4'', [3, 2, 1]), (''input.webm'', [1, 2, 3])],
          calls = [WriteFile ''input.webm'' [1, 2, 3], Exec ffmpeg_args, ReadFile ''output.mp4'']\<rparr>
         ''input.webm'' [4]) = [(''input.webm'', [4]), (''output.mp4'', [3, 2, 1])]
   \<and> ffmpegRun transcoding ffmpeg_args [(''input.webm'', [4]), (''output.mp4'', [3, 2, 1])] =
       Inr [(''output.mp4'', [4]), (''input.webm'', [4]), (''output.mp4'', [3, 2, 1])]
   \<and> job_names transcoding ''2024-01-15T10:31:50.000Z'' True recorded_again =
       [''input.webm'', ''output.mp4'']
   \<and> ffmpegRef (createVideoBlob transcoding ''2024-01-15T10:31:50.000Z'' True recorded_again) =
       Some \<lparr>files = [(''output.mp4'', [4]), (''input.webm'', [4]), (''output.mp4'', [3, 2, 1])],
             calls = [WriteFile ''input.webm'' [1, 2, 3], Exec ffmpeg_args, ReadFile ''output.mp4'',
                      WriteFile ''input.webm'' [4], Exec ffmpeg_args, ReadFile ''output.mp4'']\<rparr>
   \<and> ffmpegRun failing_toolkit ffmpeg_args [(''input.webm'', [4]), (''output.mp4'', [3, 2, 1])] =
       Inl (Error ''Aborted()'')
   \<and> job_names failing_toolkit ''2024-01-15T10:31:50.000Z'' True recorded_again = [''input.webm'']"
proof -
  note ff2 = recorded_again_facts(1)
  note ch2 = recorded_again_facts(2)
  have fs1: "files (writeFile
         \<lparr>files = [(''output.mp4'', [3, 2, 1]), (''input.webm'', [1, 2, 3])],
          calls = [WriteFile ''input.webm'' [1, 2, 3], Exec ffmpeg_args, ReadFile ''output.mp4'']\<rparr>
         ''input.webm'' [4]) = [(''input.webm'', [4]), (''output.mp4'', [3, 2, 1])]"
    by (simp add: writeFile_def)
  have run: "ffmpegRun transcoding ffmpeg_args [(''input.webm'', [4]), (''output.mp4'', [3, 2, 1])] =
       Inr [(''output.mp4'', [4]), (''input.webm'', [4]), (''output.mp4'', [3, 2, 1])]"
    by (simp add: transcoding_def)
  have rej: "ffmpegRun failing_toolkit ffmpeg_args [(''input.webm'', [4]), (''output.mp4'', [3, 2, 1])] =
       Inl (Error ''Aborted()'')"
    by (simp add: failing_toolkit_def)
  have run': "ffmpegRun transcoding ffmpeg_args
       (files (writeFile
         \<lparr>files = [(''output.mp4'', [3, 2, 1]), (''input.webm'', [1, 2, 3])],
          calls = [WriteFile ''input.webm'' [1, 2, 3], Exec ffmpeg_args, ReadFile ''output.mp4'']\<rparr>
         ''input.webm'' (concat (recordedChunksRef recorded_again)))) =
       Inr [(''output.mp4'', [4]), (''input.webm'', [4]), (''output.mp4'', [3, 2, 1])]"
    using run fs1 by (simp add: ch2)
  have rej': "ffmpegRun failing_toolkit ffmpeg_args
       (files (writeFile
         \<lparr>files = [(''output.mp4'', [3, 2, 1]), (''input.webm'', [1, 2, 3])],
          calls = [WriteFile ''input.webm'' [1, 2, 3], Exec ffmpeg_args, ReadFile ''output.mp4'']\<rparr>
         ''input.webm'' (concat (recordedChunksRef recorded_again)))) =
       Inl (Error ''Aborted()'')"
    by (simp add: failing_toolkit_def)
  from createVideoBlob_fixed_names[OF ff2, of transcoding "''2024-01-15T10:31:50.000Z''"] run'
  have a: "job_names transcoding ''2024-01-15T10:31:50.000Z'' True recorded_again =
             [''input.webm'', ''output.mp4'']"
    and b: "ffmpegRef (createVideoBlob transcoding ''2024-01-15T10:31:50.000Z'' True recorded_again) =
       Some (\<lparr>files = [(''output.mp4'', [3, 2, 1]), (''input.webm'', [1, 2, 3])],
          calls = [WriteFile ''input.webm'' [1, 2, 3], Exec ffmpeg_args, ReadFile ''output.mp4'']\<rparr>
         \<lparr>files := [(''output.mp4'', [4]), (''input.webm'', [4]), (''output.mp4'', [3, 2, 1])],
          calls := calls \<lparr>files = [(''output.mp4'', [3, 2, 1]), (''input.webm'', [1, 2, 3])],
              calls = [WriteFile ''input.webm'' [1, 2, 3], Exec ffmpeg_args, ReadFile ''output.mp4'']\<rparr>
            @ [WriteFile ''input.webm'' (concat (recordedChunksRef recorded_again)),
               Exec ffmpeg_args, ReadFile ''output.mp4'']\<rparr>)"
    by blast+
  from b have b': "ffmpegRef (createVideoBlob transcoding ''2024-01-15T10:31:50.000Z'' True recorded_again) =
       Some \<lparr>files = [(''output.mp4'', [4]), (''input.webm'', [4]), (''output.mp4'', [3, 2, 1])],
             calls = [WriteFile ''input.webm'' [1, 2, 3], Exec ffmpeg_args, ReadFile ''output.mp4'',
                      WriteFile ''input.webm'' [4], Exec ffmpeg_args, ReadFile ''output.mp4'']\<rparr>"
    by (simp add: ch2)
  from createVideoBlob_fixed_names[OF ff2, of failing_toolkit "''2024-01-15T10:31:50.000Z''"] rej'
  have c: "job_names failing_toolkit ''2024-01-15T10:31:50.000Z'' True recorded_again = [''input.webm'']"
    by blast
  from ff2 fs1 run a b' rej c show ?thesis by blast
qed

lemma createVideoBlob_failed_shape:
  assumes "ffmpegRef s = None \<or> \<not> loaded
     \<or> (\<exists>ff. ffmpegRef s = Some ff \<and>
           (case ffmpegRun p ffmpeg_args
                   (files (writeFile ff ''input.webm'' (concat (recordedChunksRef s)))) of
              Inl e \<Rightarrow> True
            | Inr fs \<Rightarrow> map_of fs ''output.mp4'' = None))"
  shows "\<exists>ffr. createVideoBlob p isoNow loaded s =
           convert_failed (s\<lparr>showDownload := True, conversionStatus := ''Processing video...'',
                              conversionProgress := 0, ffmpegRef := ffr\<rparr>)"
proof (cases "ffmpegRef s = None \<or> \<not> loaded")
  case True
  have "s\<lparr>showDownload := True, conversionStatus := ''Processing video...'',
          conversionProgress := 0, ffmpegRef := ffmpegRef s\<rparr> =
        s\<lparr>showDownload := True, conversionStatus := ''Processing video...'',
          conversionProgress := 0\<rparr>"
    by simp
  with createVideoBlob_not_ready[OF True, of p isoNow] show ?thesis by metis
next
  case False
  then have l: "loaded" by simp
  from False assms obtain ff where ff: "ffmpegRef s = Some ff"
    and c: "(case ffmpegRun p ffmpeg_args
                   (files (writeFile ff ''input.webm'' (concat (recordedChunksRef s)))) of
              Inl e \<Rightarrow> True
            | Inr fs \<Rightarrow> map_of fs ''output.mp4'' = None)"
    by auto
  show ?thesis
  proof (cases "ffmpegRun p ffmpeg_args
                   (files (writeFile ff ''input.webm'' (concat (recordedChunksRef s))))")
    case (Inl e)
    from createVideoBlob_exec_rejects[OF ff Inl, of isoNow] l show ?thesis by auto
  next
    case (Inr fs)
    with c have "map_of fs ''output.mp4'' = None" by simp
    from createVideoBlob_no_output[OF ff Inr this, of isoNow] l show ?thesis by auto
  qed
qed

lemma job_calls_one_exec: "length (filter is_exec (job_calls p isoNow loaded s)) \<le> 1"
proof (cases "ffmpegRef s = None \<or> \<not> loaded")
  case True
  then show ?thesis by (simp add: job_calls_not_ready)
next
  case False
  then obtain ff where "ffmpegRef s = Some ff" and l: "loaded" by auto
  from job_calls_cases[OF this(1), of p isoNow] l show ?thesis
    by (auto simp: is_exec_def)
qed

text \<open>
  The \<^verbatim>\<open>catch\<close> block of the transcode. When the engine object is missing or not loaded, when \<^verbatim>\<open>exec\<close> rejects, or when the
  output file cannot be read, \<^verbatim>\<open>createVideoBlob\<close> catches the error: the download section is
  shown with the status "Error converting video. Please try again.", no download URL or
  file name is set, no task is queued and the recording state is untouched, and the job
  called \<^verbatim>\<open>exec\<close> at most once (not at all when the engine was not ready). The status
  stays until an event starts another transcode job.
\<close>

lemma createVideoBlob_catch_terminal:
  assumes "ffmpegRef s = None \<or> \<not> loaded
     \<or> (\<exists>ff. ffmpegRef s = Some ff \<and>
           (case ffmpegRun p ffmpeg_args
                   (files (writeFile ff ''input.webm'' (concat (recordedChunksRef s)))) of
              Inl e \<Rightarrow> True
            | Inr fs \<Rightarrow> map_of fs ''output.mp4'' = None))"
  shows "conversionStatus (createVideoBlob p isoNow loaded s) = ''Error converting video. Please try again.''
     \<and> showDownload (createVideoBlob p isoNow loaded s)
     \<and> downloadUrl (createVideoBlob p isoNow loaded s) = downloadUrl s
     \<and> downloadFilename (createVideoBlob p isoNow loaded s) = downloadFilename s
     \<and> objectURLs (createVideoBlob p isoNow loaded s) = objectURLs s
     \<and> tasks (createVideoBlob p isoNow loaded s) = tasks s
     \<and> isRecording (createVideoBlob p isoNow loaded s) = isRecording s
     \<and> mediaRecorderRef (createVideoBlob p isoNow loaded s) = mediaRecorderRef s
     \<and> recordedChunksRef (createVideoBlob p isoNow loaded s) = recordedChunksRef s
     \<and> length (filter is_exec (job_calls p isoNow loaded s)) \<le> 1
     \<and> (ffmpegRef s = None \<or> \<not> loaded \<longrightarrow> job_calls p isoNow loaded s = [])
     \<and> (\<forall>es. no_job p es (createVideoBlob p isoNow loaded s) \<longrightarrow>
           conversionStatus (run_events p es (createVideoBlob p isoNow loaded s)) =
             ''Error converting video. Please try again.'')"
proof -
  from createVideoBlob_failed_shape[OF assms, of isoNow] obtain ffr where
    eq: "createVideoBlob p isoNow loaded s =
           convert_failed (s\<lparr>showDownload := True, conversionStatus := ''Processing video...'',
                              conversionProgress := 0, ffmpegRef := ffr\<rparr>)"
    by blast
  have st: "conversionStatus (createVideoBlob p isoNow loaded s) =
              ''Error converting video. Please try again.''"
    by (simp add: eq convert_failed_def)
  have later: "conversionStatus (run_events p es (createVideoBlob p isoNow loaded s)) =
             ''Error converting video. Please try again.''"
    if "no_job p es (createVideoBlob p isoNow loaded s)" for es
    using run_events_keeps_result[OF that] st by simp
  have nr: "ffmpegRef s = None \<or> \<not> loaded \<longrightarrow> job_calls p isoNow loaded s = []"
    using job_calls_not_ready[of s loaded p isoNow] by blast
  have rest: "showDownload (createVideoBlob p isoNow loaded s)
     \<and> downloadUrl (createVideoBlob p isoNow loaded s) = downloadUrl s
     \<and> downloadFilename (createVideoBlob p isoNow loaded s) = downloadFilename s
     \<and> objectURLs (createVideoBlob p isoNow loaded s) = objectURLs s
     \<and> tasks (createVideoBlob p isoNow loaded s) = tasks s
     \<and> isRecording (createVideoBlob p isoNow loaded s) = isRecording s
     \<and> mediaRecorderRef (createVideoBlob p isoNow loaded s) = mediaRecorderRef s
     \<and> recordedChunksRef (createVideoBlob p isoNow loaded s) = recordedChunksRef s"
    by (simp add: eq convert_failed_def)
  from st rest job_calls_one_exec[of p isoNow loaded s] nr later show ?thesis by blast
qed

lemma createVideoBlob_catch_terminal_example:
  "ffmpegRef mounted = None
   \<and> conversionStatus (createVideoBlob transcoding ''2024-01-15T10:30:45.123Z'' False mounted) =
       ''Error converting video. Please try again.''
   \<and> job_calls transcoding ''2024-01-15T10:30:45.123Z'' False mounted = []
   \<and> conversionStatus (createVideoBlob failing_toolkit ''2024-01-15T10:30:45.123Z'' True recorded) =
       ''Error converting video. Please try again.''
   \<and> downloadUrl (createVideoBlob failing_toolkit ''2024-01-15T10:30:45.123Z'' True recorded) = []
   \<and> conversionStatus (run_events failing_toolkit [SocketMessage ''QUJD'', Tick 5000, ClickDownload]
        (createVideoBlob failing_toolkit ''2024-01-15T10:30:45.123Z'' True recorded)) =
       ''Error converting video. Please try again.''"
proof -
  have none: "ffmpegRef mounted = None" by (simp add: mounted_def)
  then have h1: "ffmpegRef mounted = None \<or> \<not> False
     \<or> (\<exists>ff. ffmpegRef mounted = Some ff \<and>
           (case ffmpegRun transcoding ffmpeg_args
                   (files (writeFile ff ''input.webm'' (concat (recordedChunksRef mounted)))) of
              Inl e \<Rightarrow> True
            | Inr fs \<Rightarrow> map_of fs ''output.mp4'' = None))"
    by simp
  have h2: "ffmpegRef recorded = None \<or> \<not> True
     \<or> (\<exists>ff. ffmpegRef recorded = Some ff \<and>
           (case ffmpegRun failing_toolkit ffmpeg_args
                   (files (writeFile ff ''input.webm'' (concat (recordedChunksRef recorded)))) of
              Inl e \<Rightarrow> True
            | Inr fs \<Rightarrow> map_of fs ''output.mp4'' = None))"
    by (simp add: recorded_facts failing_toolkit_def)
  note a = createVideoBlob_catch_terminal[OF h1, of "''2024-01-15T10:30:45.123Z''"]
  note b = createVideoBlob_catch_terminal[OF h2, of "''2024-01-15T10:30:45.123Z''"]
  have nj: "no_job failing_toolkit [SocketMessage ''QUJD'', Tick 5000, ClickDownload]
        (createVideoBlob failing_toolkit ''2024-01-15T10:30:45.123Z'' True recorded)"
    by (simp add: starts_job_def)
  from a none have a': "conversionStatus (createVideoBlob transcoding ''2024-01-15T10:30:45.123Z'' False mounted) =
       ''Error converting video. Please try again.''
     \<and> job_calls transcoding ''2024-01-15T10:30:45.123Z'' False mounted = []"
    by blast
  from b nj have b': "conversionStatus (createVideoBlob failing_toolkit ''2024-01-15T10:30:45.123Z'' True recorded) =
       ''Error converting video. Please try again.''
   \<and> downloadUrl (createVideoBlob failing_toolkit ''2024-01-15T10:30:45.123Z'' True recorded) =
       downloadUrl recorded
   \<and> conversionStatus (run_events failing_toolkit [SocketMessage ''QUJD'', Tick 5000, ClickDownload]
        (createVideoBlob failing_toolkit ''2024-01-15T10:30:45.123Z'' True recorded)) =
       ''Error converting video. Please try again.''"
    by blast
  from none a' b' show ?thesis by (simp add: recorded_facts)
qed

text \<open>
  C7 fails for a command that fails the way the engine reports it. The promise of \<^verbatim>\<open>exec\<close>
  then resolves with a nonzero exit code, which \<^verbatim>\<open>createVideoBlob\<close> does not read. On a page
  whose engine still holds the output of an earlier job, the second job reads that file:
  it reports "MP4 video ready for download!" and offers the first recording again. When the
  failed command leaves an empty output file, the page reports the same and offers an empty
  file. No error status is set in either case.
\<close>

theorem createVideoBlob_ignores_exit_code:
  "recordedChunksRef recorded_again = [[4]]
   \<and> objectURLs recorded_again = [(''blob:0'', [3, 2, 1])]
   \<and> ffmpegRun exit_code_one ffmpeg_args [(''input.webm'', [4]), (''output.mp4'', [3, 2, 1])] =
       Inr [(''input.webm'', [4]), (''output.mp4'', [3, 2, 1])]
   \<and> conversionStatus (createVideoBlob exit_code_one ''2024-01-15T10:31:50.000Z'' True recorded_again)
       = ''MP4 video ready for download!''
   \<and> conversionProgress (createVideoBlob exit_code_one ''2024-01-15T10:31:50.000Z'' True recorded_again)
       = 100
   \<and> status (createVideoBlob exit_code_one ''2024-01-15T10:31:50.000Z'' True recorded_again)
       = ''Video ready for download''
   \<and> downloadUrl (createVideoBlob exit_code_one ''2024-01-15T10:31:50.000Z'' True recorded_again)
       = ''blob:1''
   \<and> objectURLs (createVideoBlob exit_code_one ''2024-01-15T10:31:50.000Z'' True recorded_again)
       = [(''blob:0'', [3, 2, 1]), (''blob:1'', [3, 2, 1])]
   \<and> conversionStatus (createVideoBlob empty_output ''2024-01-15T10:30:45.123Z'' True recorded)
       = ''MP4 video ready for download!''
   \<and> objectURLs (createVideoBlob empty_output ''2024-01-15T10:30:45.123Z'' True recorded)
       = [(''blob:0'', [])]"
proof -
  note ff2 = recorded_again_facts(1)
  note ch2 = recorded_again_facts(2)
  have one: "toString_nat (Suc 0) = ''1''" by code_simp
  have z: "toString_nat 0 = ''0''" by code_simp
  have run: "ffmpegRun exit_code_one ffmpeg_args [(''input.webm'', [4]), (''output.mp4'', [3, 2, 1])] =
       Inr [(''input.webm'', [4]), (''output.mp4'', [3, 2, 1])]"
    by (simp add: exit_code_one_def)
  have run': "ffmpegRun exit_code_one ffmpeg_args
       (files (writeFile
         \<lparr>files = [(''output.mp4'', [3, 2, 1]), (''input.webm'', [1, 2, 3])],
          calls = [WriteFile ''input.webm'' [1, 2, 3], Exec ffmpeg_args, ReadFile ''output.mp4'']\<rparr>
         ''input.webm'' (concat (recordedChunksRef recorded_again)))) =
       Inr [(''input.webm'', [4]), (''output.mp4'', [3, 2, 1])]"
    by (simp add: exit_code_one_def writeFile_def ch2)
  have m: "map_of [(''input.webm'', [4 :: 8 word]), (''output.mp4'', [3, 2, 1])] ''output.mp4''
             = Some [3, 2, 1]"
    by simp
  note second = createVideoBlob_success[OF ff2 run' m, of "''2024-01-15T10:31:50.000Z''"]
  have a: "conversionStatus (createVideoBlob exit_code_one ''2024-01-15T10:31:50.000Z'' True recorded_again)
       = ''MP4 video ready for download!''
   \<and> conversionProgress (createVideoBlob exit_code_one ''2024-01-15T10:31:50.000Z'' True recorded_again)
       = 100
   \<and> status (createVideoBlob exit_code_one ''2024-01-15T10:31:50.000Z'' True recorded_again)
       = ''Video ready for download''
   \<and> downloadUrl (createVideoBlob exit_code_one ''2024-01-15T10:31:50.000Z'' True recorded_again)
       = ''blob:1''
   \<and> objectURLs (createVideoBlob exit_code_one ''2024-01-15T10:31:50.000Z'' True recorded_again)
       = [(''blob:0'', [3, 2, 1]), (''blob:1'', [3, 2, 1])]"
    by (simp add: second recorded_again_facts(3) one)
  have run3: "ffmpegRun empty_output ffmpeg_args
     (files (writeFile \<lparr>files = [], calls = []\<rparr> ''input.webm'' (concat (recordedChunksRef recorded)))) =
       Inr [(''output.mp4'', []), (''input.webm'', [1, 2, 3])]"
    by (simp add: empty_output_def writeFile_def recorded_facts)
  have m3: "map_of [(''output.mp4'', [] :: 8 word list), (''input.webm'', [1, 2, 3])] ''output.mp4''
             = Some []"
    by simp
  note third = createVideoBlob_success[OF recorded_facts(1) run3 m3, of "''2024-01-15T10:30:45.123Z''"]
  have b: "conversionStatus (createVideoBlob empty_output ''2024-01-15T10:30:45.123Z'' True recorded)
       = ''MP4 video ready for download!''
   \<and> objectURLs (createVideoBlob empty_output ''2024-01-15T10:30:45.123Z'' True recorded)
       = [(''blob:0'', [])]"
    by (simp add: third recorded_facts z)
  from ch2 recorded_again_facts(3) run a b show ?thesis by blast
qed

text \<open>
  C8. A successful transcode job sets the file name once, to \<^verbatim>\<open>recorded_video_\<close>, the first
  19 characters of the ISO-8601 instant \<^verbatim>\<open>YYYY-MM-DDTHH:mm:ss.sssZ\<close> with its colons turned
  into dashes, and \<^verbatim>\<open>.mp4\<close>; it registers the output under the new download URL. File name,
  URL and registered blobs then stay the same under every sequence of events in which no
  further transcode job starts.
\<close>

theorem createVideoBlob_filename_stable:
  assumes ff: "ffmpegRef s = Some ff"
    and run: "ffmpegRun p ffmpeg_args
                (files (writeFile ff ''input.webm'' (concat (recordedChunksRef s)))) = Inr fs"
    and out: "map_of fs ''output.mp4'' = Some data"
    and iso: "isoNow = yyyy @ ''-'' @ mo @ ''-'' @ dd @ ''T'' @ hh @ '':'' @ mi @ '':'' @ ss
                       @ ''.'' @ ms @ ''Z''"
    and len: "length yyyy = 4" "length mo = 2" "length dd = 2" "length hh = 2" "length mi = 2"
      "length ss = 2"
    and dig: "list_all is_digit (yyyy @ mo @ dd @ hh @ mi @ ss)"
  shows "downloadFilename (createVideoBlob p isoNow True s) =
           ''recorded_video_'' @ yyyy @ ''-'' @ mo @ ''-'' @ dd @ ''T'' @ hh @ ''-'' @ mi @ ''-'' @ ss
           @ ''.mp4''
         \<and> objectURLs (createVideoBlob p isoNow True s) =
             objectURLs s @ [(downloadUrl (createVideoBlob p isoNow True s), data)]
         \<and> (\<forall>es. no_job p es (createVideoBlob p isoNow True s) \<longrightarrow>
               downloadFilename (run_events p es (createVideoBlob p isoNow True s)) =
                 downloadFilename (createVideoBlob p isoNow True s)
               \<and> downloadUrl (run_events p es (createVideoBlob p isoNow True s)) =
                 downloadUrl (createVideoBlob p isoNow True s)
               \<and> objectURLs (run_events p es (createVideoBlob p isoNow True s)) =
                 objectURLs (createVideoBlob p isoNow True s))"
proof -
  have t: "take 19 isoNow = yyyy @ ''-'' @ mo @ ''-'' @ dd @ ''T'' @ hh @ '':'' @ mi @ '':'' @ ss"
    using len by (simp add: iso)
  from dig have d: "replace_colons yyyy = yyyy" "replace_colons mo = mo" "replace_colons dd = dd"
    "replace_colons hh = hh" "replace_colons mi = mi" "replace_colons ss = ss"
    by (simp_all add: replace_colons_digits)
  have c: "replace_colons '':'' = ''-''" "replace_colons ''-'' = ''-''" "replace_colons ''T'' = ''T''"
    by (simp_all add: replace_colons_def)
  have r: "replace_colons (take 19 isoNow) =
             yyyy @ ''-'' @ mo @ ''-'' @ dd @ ''T'' @ hh @ ''-'' @ mi @ ''-'' @ ss"
    unfolding t replace_colons_append d c ..
  have name: "downloadFilename (createVideoBlob p isoNow True s) =
           ''recorded_video_'' @ yyyy @ ''-'' @ mo @ ''-'' @ dd @ ''T'' @ hh @ ''-'' @ mi @ ''-'' @ ss
           @ ''.mp4''"
    by (simp add: createVideoBlob_success[OF ff run out] r)
  have url: "objectURLs (createVideoBlob p isoNow True s) =
             objectURLs s @ [(downloadUrl (createVideoBlob p isoNow True s), data)]"
    by (simp add: createVideoBlob_success[OF ff run out])
  from name url run_events_keeps_result[of p _ "createVideoBlob p isoNow True s"]
  show ?thesis by blast
qed

theorem createVideoBlob_filename_stable_witness:
  "downloadFilename (createVideoBlob transcoding ''2024-01-15T10:30:45.123Z'' True recorded) =
     ''recorded_video_2024-01-15T10-30-45.mp4''
   \<and> downloadFilename (run_events transcoding
        [SocketMessage ''QUJD'', ClickStop, Tick 5000, SocketClose, ClickDownload]
        (createVideoBlob transcoding ''2024-01-15T10:30:45.123Z'' True recorded)) =
     ''recorded_video_2024-01-15T10-30-45.mp4''"
proof -
  note ff = recorded_facts(1)
  have m: "map_of [(''output.mp4'', [3, 2, 1 :: 8 word]), (''input.webm'', [1, 2, 3])] ''output.mp4''
             = Some [3, 2, 1]"
    by simp
  have run: "ffmpegRun transcoding ffmpeg_args
     (files (writeFile \<lparr>files = [], calls = []\<rparr> ''input.webm'' (concat (recordedChunksRef recorded)))) =
   Inr [(''output.mp4'', [3, 2, 1]), (''input.webm'', [1, 2, 3])]"
    using transcoding_run by (simp add: recorded_facts)
  have iso: "''2024-01-15T10:30:45.123Z'' =
       ''2024'' @ ''-'' @ ''01'' @ ''-'' @ ''15'' @ ''T'' @ ''10'' @ '':'' @ ''30'' @ '':'' @ ''45''
       @ ''.'' @ ''123'' @ ''Z''"
    by simp
  have dig: "list_all is_digit (''2024'' @ ''01'' @ ''15'' @ ''10'' @ ''30'' @ ''45'')"
    by (simp add: is_digit_def)
  have nj: "no_job transcoding
        [SocketMessage ''QUJD'', ClickStop, Tick 5000, SocketClose, ClickDownload]
        (createVideoBlob transcoding ''2024-01-15T10:30:45.123Z'' True recorded)"
    by (simp add: starts_job_def)
  have th: "downloadFilename (createVideoBlob transcoding ''2024-01-15T10:30:45.123Z'' True recorded) =
           ''recorded_video_'' @ ''2024'' @ ''-'' @ ''01'' @ ''-'' @ ''15'' @ ''T'' @ ''10'' @ ''-''
           @ ''30'' @ ''-'' @ ''45'' @ ''.mp4''
         \<and> objectURLs (createVideoBlob transcoding ''2024-01-15T10:30:45.123Z'' True recorded) =
             objectURLs recorded
             @ [(downloadUrl (createVideoBlob transcoding ''2024-01-15T10:30:45.123Z'' True recorded),
                 [3, 2, 1])]
         \<and> (\<forall>es. no_job transcoding es
                    (createVideoBlob transcoding ''2024-01-15T10:30:45.123Z'' True recorded) \<longrightarrow>
               downloadFilename (run_events transcoding es
                    (createVideoBlob transcoding ''2024-01-15T10:30:45.123Z'' True recorded)) =
                 downloadFilename (createVideoBlob transcoding ''2024-01-15T10:30:45.123Z'' True recorded)
               \<and> downloadUrl (run_events transcoding es
                    (createVideoBlob transcoding ''2024-01-15T10:30:45.123Z'' True recorded)) =
                 downloadUrl (createVideoBlob transcoding ''2024-01-15T10:30:45.123Z'' True recorded)
               \<and> objectURLs (run_events transcoding es
                    (createVideoBlob transcoding ''2024-01-15T10:30:45.123Z'' True recorded)) =
                 objectURLs (createVideoBlob transcoding ''2024-01-15T10:30:45.123Z'' True recorded))"
    by (rule createVideoBlob_filename_stable[OF ff run m iso _ _ _ _ _ _ dig]) simp_all
  then have name: "downloadFilename (createVideoBlob transcoding ''2024-01-15T10:30:45.123Z'' True recorded) =
     ''recorded_video_2024-01-15T10-30-45.mp4''"
    by simp
  from th nj have "downloadFilename (run_events transcoding
        [SocketMessage ''QUJD'', ClickStop, Tick 5000, SocketClose, ClickDownload]
        (createVideoBlob transcoding ''2024-01-15T10:30:45.123Z'' True recorded)) =
      downloadFilename (createVideoBlob transcoding ''2024-01-15T10:30:45.123Z'' True recorded)"
    by blast
  with name show ?thesis by (simp only:)
qed

section \<open>Properties of the recording session\<close>

lemma toString_nat_digit: "n < 10 \<Longrightarrow> toString_nat n = [digit_char n]"
  by (subst toString_nat.simps) simp

lemma toString_nat_two: "10 \<le> n \<Longrightarrow> n < 100 \<Longrightarrow> toString_nat n = [digit_char (n div 10), digit_char (n mod 10)]"
  by (subst toString_nat.simps) (simp add: toString_nat_digit)

lemma padStart_two_digits: "n < 100 \<Longrightarrow> padStart (toString_nat n) 2 CHR ''0'' = two_digits n"
proof (cases "n < 10")
  case True
  then show ?thesis
    by (simp add: padStart_def toString_nat_digit two_digits_def digit_char_def)
next
  case False
  assume "n < 100"
  with False show ?thesis
    by (simp add: padStart_def toString_nat_two two_digits_def)
qed

lemma div_60000: "(e::int) div 60000 = e div 1000 div 60"
  by (simp add: zdiv_zmult2_eq[symmetric])

lemma mod_60000: "(e::int) mod 60000 div 1000 = e div 1000 mod 60"
proof -
  have "e mod (1000 * 60) = 1000 * (e div 1000 mod 60) + e mod 1000"
    by (rule zmod_zmult2_eq) simp
  then have "e mod 60000 div 1000 = (1000 * (e div 1000 mod 60) + e mod 1000) div 1000"
    by simp
  also have "\<dots> = e div 1000 mod 60"
    by simp
  finally show ?thesis .
qed

lemma updateRecordingTime_floor:
  assumes "startTimeRef s \<noteq> 0" and "startTimeRef s \<le> now"
  shows "recordingTime (updateRecordingTime now s) = whole_second_display (now - startTimeRef s)"
proof -
  define e where "e = now - startTimeRef s"
  define n where "n = nat (e div 1000)"
  have e0: "0 \<le> e" using assms by (simp add: e_def)
  have q: "e div 1000 = int n" using e0 by (simp add: n_def)
  have m: "toString (e div 60000) = toString_nat (n div 60)"
  proof -
    have "e div 60000 = int (n div 60)" by (simp add: div_60000 q zdiv_int)
    then show ?thesis by (simp add: toString_def)
  qed
  have r: "toString (js_rem e 60000 div 1000) = toString_nat (n mod 60)"
  proof -
    have "js_rem e 60000 div 1000 = e mod 60000 div 1000" using e0 by (simp add: js_rem_def)
    also have "\<dots> = int (n mod 60)" by (simp add: mod_60000 q zmod_int)
    finally show ?thesis by (simp add: toString_def)
  qed
  have "recordingTime (updateRecordingTime now s) =
          padStart (toString_nat (n div 60)) 2 CHR ''0'' @ '':'' @
          padStart (toString_nat (n mod 60)) 2 CHR ''0''"
    using assms(1) m r by (simp add: updateRecordingTime_def Let_def e_def)
  also have "padStart (toString_nat (n mod 60)) 2 CHR ''0'' = two_digits (n mod 60)"
    by (rule padStart_two_digits) simp
  finally show ?thesis
    by (simp add: whole_second_display_def Let_def e_def n_def)
qed

lemma whole_second_display_mmss:
  assumes "0 \<le> elapsed" and "elapsed < 6000000"
  shows "whole_second_display elapsed =
           two_digits (nat (elapsed div 1000) div 60) @ '':'' @ two_digits (nat (elapsed div 1000) mod 60)"
proof -
  have "elapsed div 1000 < 6000" using assms by simp
  then have "nat (elapsed div 1000) div 60 < 100" using assms by simp
  then show ?thesis
    by (simp add: whole_second_display_def Let_def padStart_two_digits)
qed

lemma createVideoBlob_keeps_timer:
  "recordingIntervalRef (createVideoBlob p isoNow loaded s) = recordingIntervalRef s
   \<and> recordingTime (createVideoBlob p isoNow loaded s) = recordingTime s"
proof (cases "ffmpegRef s = None \<or> \<not> loaded")
  case True
  then show ?thesis by (simp add: createVideoBlob_not_ready convert_failed_def)
next
  case False
  then obtain ff where ff: "ffmpegRef s = Some ff" and l: "loaded" by auto
  show ?thesis
  proof (cases "ffmpegRun p ffmpeg_args (files (writeFile ff ''input.webm'' (concat (recordedChunksRef s))))")
    case (Inl e)
    show ?thesis using l by (simp add: createVideoBlob_exec_rejects[OF ff Inl] convert_failed_def)
  next
    case (Inr fs)
    show ?thesis
    proof (cases "map_of fs ''output.mp4''")
      case None
      show ?thesis using l
        by (simp add: createVideoBlob_no_output[OF ff Inr None] convert_failed_def)
    next
      case (Some data)
      show ?thesis using l by (simp add: createVideoBlob_success[OF ff Inr Some])
    qed
  qed
qed

lemma step_keeps_stopped_time:
  assumes "\<not> is_start e" and "recordingIntervalRef s = None"
  shows "recordingIntervalRef (step p e s) = None \<and> recordingTime (step p e s) = recordingTime s"
proof (cases e)
  case (RunTask isoNow)
  with assms show ?thesis
    by (auto simp: run_task_def ondataavailable_def updateFileSize_def Let_def
        createVideoBlob_keeps_timer split: list.splits task.splits option.splits)
next
  case (SocketMessage d)
  with assms show ?thesis
    by (cases "wsRef s"; cases "canvasRef s"; cases "set_src (loadImage p) (formats d) 0")
       (simp_all add: handleFrame_def drawFrame_def)
next
  case (ClickStart now)
  with assms show ?thesis by (simp add: is_start_def)
qed (use assms in \<open>auto simp: initFFmpeg_def connect_def disconnect_def stopRecording_def
      stopRecording_seen_def recorder_stop_def ws_onopen_def ws_onerror_def ws_onclose_def
      ondataavailable_def updateFileSize_def Let_def split: option.splits\<close>)

lemma run_events_keeps_stopped_time:
  "list_all (\<lambda>e. \<not> is_start e) es \<Longrightarrow> recordingIntervalRef s = None \<Longrightarrow>
   recordingIntervalRef (run_events p es s) = None
   \<and> recordingTime (run_events p es s) = recordingTime s"
proof (induction es arbitrary: s)
  case Nil
  then show ?case by simp
next
  case (Cons e es)
  then have a: "\<not> is_start e" and b: "list_all (\<lambda>e. \<not> is_start e) es" by auto
  from step_keeps_stopped_time[OF a Cons.prems(2), of p] Cons.IH[OF b, of "step p e s"]
  show ?case by simp
qed

lemma stopRecording_clears_timer:
  "isRecording s \<Longrightarrow>
   recordingIntervalRef (stopRecording s) = None \<and> recordingTime (stopRecording s) = recordingTime s"
  by (auto simp: stopRecording_def stopRecording_seen_def recorder_stop_def Let_def
      split: option.splits)

lemma stopRecording_seen_clears_timer:
  "recordingIntervalRef (stopRecording_seen True s) = None
   \<and> recordingTime (stopRecording_seen True s) = recordingTime s"
  by (auto simp: stopRecording_seen_def recorder_stop_def Let_def split: option.splits)

lemma disconnect_clears_timer:
  assumes "isRecording s"
  shows "recordingIntervalRef (disconnect s) = None \<and> recordingTime (disconnect s) = recordingTime s"
proof (cases "wsRef s")
  case None
  then show ?thesis
    using assms stopRecording_seen_clears_timer[of "s\<lparr>isConnected := False, status := ''Disconnected''\<rparr>"]
    by (simp add: disconnect_def stopRecording_def)
next
  case (Some ws)
  then show ?thesis
    using assms stopRecording_seen_clears_timer[of
        "s\<lparr>wsRef := Some (ws\<lparr>readyState := CLOSING\<rparr>), isConnected := False,
           status := ''Disconnected''\<rparr>"]
    by (simp add: disconnect_def stopRecording_def)
qed

text \<open>
  C4, as stated, fails twice. 1600 ms after the start the timer tick shows \<^verbatim>\<open>00:01\<close>, while
  the elapsed time rounded to the nearest second is \<^verbatim>\<open>00:02\<close>. And when the socket closes
  during a recording, its \<^verbatim>\<open>onclose\<close> handler calls \<^verbatim>\<open>stopRecording\<close> of the render that
  opened the socket, which saw \<^verbatim>\<open>isRecording\<close> false and returns at once: the page is still
  recording and the display goes on advancing.
\<close>

theorem recordingTime_rounds_down_counterexample:
  "isRecording (run_events transcoding recording_session mounted)
   \<and> startTimeRef (run_events transcoding recording_session mounted) = 1000
   \<and> recordingTime (step transcoding (Tick 2600) (run_events transcoding recording_session mounted))
       = ''00:01''
   \<and> nearest_second_display (2600 - 1000) = ''00:02''
   \<and> isRecording (run_events transcoding (recording_session @ [SocketClose]) mounted)
   \<and> recordingTime (run_events transcoding (recording_session @ [SocketClose, Tick 4000]) mounted)
       = ''00:03''
   \<and> recordingTime (run_events transcoding
        (recording_session @ [SocketClose, Tick 4000, Tick 5000]) mounted) = ''00:04''"
  by code_simp

text \<open>
  C4, amended. At each tick of the one-second timer of a recording, the display is set to
  the time elapsed since the start in whole seconds, rounded down: minutes zero-padded to
  at least two digits, a colon, seconds as two digits; below 100 minutes this is exactly
  \<^verbatim>\<open>MM:SS\<close>. A call of \<^verbatim>\<open>stopRecording\<close> that sees the page as recording clears the timer,
  and the display then keeps its value under every sequence of events without a new start.
  The Stop button and \<^verbatim>\<open>disconnect\<close> (the Connect button of a connected page) make such a
  call whenever the page is recording.
\<close>

theorem updateRecordingTime_whole_seconds_until_stop:
  "(startTimeRef s \<noteq> 0 \<and> startTimeRef s \<le> now \<longrightarrow>
      recordingTime (updateRecordingTime now s) = whole_second_display (now - startTimeRef s)
      \<and> (now - startTimeRef s < 6000000 \<longrightarrow>
            recordingTime (updateRecordingTime now s) =
              two_digits (nat ((now - startTimeRef s) div 1000) div 60) @ '':'' @
              two_digits (nat ((now - startTimeRef s) div 1000) mod 60)))
   \<and> (recordingIntervalRef s \<noteq> None \<longrightarrow> step p (Tick now) s = updateRecordingTime now s)
   \<and> (isRecording s \<longrightarrow>
         recordingIntervalRef (stopRecording s) = None
         \<and> recordingTime (stopRecording s) = recordingTime s
         \<and> (\<forall>es. list_all (\<lambda>e. \<not> is_start e) es \<longrightarrow>
               recordingTime (run_events p es (stopRecording s)) = recordingTime s))
   \<and> recordingIntervalRef (stopRecording_seen True s) = None
   \<and> recordingTime (stopRecording_seen True s) = recordingTime s
   \<and> (\<forall>es. list_all (\<lambda>e. \<not> is_start e) es \<longrightarrow>
         recordingTime (run_events p es (stopRecording_seen True s)) = recordingTime s)
   \<and> (isRecording s \<longrightarrow>
         step p ClickStop s = stopRecording_seen True s
         \<and> recordingIntervalRef (step p ClickStop s) = None
         \<and> (\<forall>es. list_all (\<lambda>e. \<not> is_start e) es \<longrightarrow>
               recordingTime (run_events p (ClickStop # es) s) = recordingTime s))
   \<and> (isConnected s \<and> ffmpegLoaded s \<longrightarrow> step p ClickConnect s = disconnect s)
   \<and> (isRecording s \<longrightarrow>
         recordingIntervalRef (disconnect s) = None
         \<and> recordingTime (disconnect s) = recordingTime s
         \<and> (\<forall>es. list_all (\<lambda>e. \<not> is_start e) es \<longrightarrow>
               recordingTime (run_events p es (disconnect s)) = recordingTime s))"
proof -
  have a: "recordingTime (updateRecordingTime now s) = whole_second_display (now - startTimeRef s)
      \<and> (now - startTimeRef s < 6000000 \<longrightarrow>
            recordingTime (updateRecordingTime now s) =
              two_digits (nat ((now - startTimeRef s) div 1000) div 60) @ '':'' @
              two_digits (nat ((now - startTimeRef s) div 1000) mod 60))"
    if h: "startTimeRef s \<noteq> 0 \<and> startTimeRef s \<le> now"
  proof -
    from h have n: "startTimeRef s \<noteq> 0" and l: "startTimeRef s \<le> now" by auto
    from l have "0 \<le> now - startTimeRef s" by simp
    from whole_second_display_mmss[OF this] updateRecordingTime_floor[OF n l]
    show ?thesis by simp
  qed
  have b: "recordingIntervalRef s \<noteq> None \<longrightarrow> step p (Tick now) s = updateRecordingTime now s"
    by (auto split: option.splits)
  have frozen: "\<forall>es. list_all (\<lambda>e. \<not> is_start e) es \<longrightarrow>
               recordingTime (run_events p es s') = recordingTime s"
    if "recordingIntervalRef s' = None \<and> recordingTime s' = recordingTime s" for s'
    using that run_events_keeps_stopped_time[of _ s' p] by simp
  have c: "recordingIntervalRef (stopRecording s) = None
         \<and> recordingTime (stopRecording s) = recordingTime s
         \<and> (\<forall>es. list_all (\<lambda>e. \<not> is_start e) es \<longrightarrow>
               recordingTime (run_events p es (stopRecording s)) = recordingTime s)"
    if r: "isRecording s"
    using stopRecording_clears_timer[OF r] frozen[of "stopRecording s"] by blast
  note d1 = stopRecording_seen_clears_timer[of s]
  note d2 = frozen[OF d1]
  have e: "step p ClickStop s = stopRecording_seen True s
         \<and> recordingIntervalRef (step p ClickStop s) = None
         \<and> (\<forall>es. list_all (\<lambda>e. \<not> is_start e) es \<longrightarrow>
               recordingTime (run_events p (ClickStop # es) s) = recordingTime s)"
    if r: "isRecording s"
  proof -
    from r have eq: "step p ClickStop s = stopRecording_seen True s"
      by (simp add: stopRecording_def)
    from eq d1 d2 show ?thesis by simp
  qed
  have f: "isConnected s \<and> ffmpegLoaded s \<longrightarrow> step p ClickConnect s = disconnect s"
    by (simp add: connect_def)
  have g: "recordingIntervalRef (disconnect s) = None
         \<and> recordingTime (disconnect s) = recordingTime s
         \<and> (\<forall>es. list_all (\<lambda>e. \<not> is_start e) es \<longrightarrow>
               recordingTime (run_events p es (disconnect s)) = recordingTime s)"
    if r: "isRecording s"
    using disconnect_clears_timer[OF r] frozen[of "disconnect s"] by blast
  from a b c d1 d2 e f g show ?thesis by blast
qed

theorem updateRecordingTime_whole_seconds_until_stop_witness:
  "isRecording (run_events transcoding (recording_session @ [Tick 2600]) mounted)
   \<and> isConnected (run_events transcoding (recording_session @ [Tick 2600]) mounted)
   \<and> ffmpegLoaded (run_events transcoding (recording_session @ [Tick 2600]) mounted)
   \<and> startTimeRef (run_events transcoding (recording_session @ [Tick 2600]) mounted) = 1000
   \<and> recordingTime (run_events transcoding (recording_session @ [Tick 2600]) mounted) = ''00:01''
   \<and> recordingTime (updateRecordingTime 126999
         (run_events transcoding (recording_session @ [Tick 2600]) mounted)) = ''02:05''
   \<and> recordingTime (run_events transcoding
        [ClickStop, Tick 130000, SocketMessage ''QUJD'', Tick 131000]
        (run_events transcoding (recording_session @ [Tick 2600]) mounted)) = ''00:01''
   \<and> recordingTime (run_events transcoding
        [ClickConnect, Tick 130000, SocketClose, Tick 131000]
        (run_events transcoding (recording_session @ [Tick 2600]) mounted)) = ''00:01''"
proof -
  have r: "isRecording (run_events transcoding (recording_session @ [Tick 2600]) mounted)"
    by code_simp
  have ic: "isConnected (run_events transcoding (recording_session @ [Tick 2600]) mounted)"
    by code_simp
  have fl: "ffmpegLoaded (run_events transcoding (recording_session @ [Tick 2600]) mounted)"
    by code_simp
  have st: "startTimeRef (run_events transcoding (recording_session @ [Tick 2600]) mounted) = 1000"
    by code_simp
  have rt: "recordingTime (run_events transcoding (recording_session @ [Tick 2600]) mounted) = ''00:01''"
    by code_simp
  have w: "whole_second_display (126999 - 1000) = ''02:05''" by code_simp
  have ns: "list_all (\<lambda>e. \<not> is_start e) [Tick 130000, SocketMessage ''QUJD'', Tick 131000]"
    by (simp add: is_start_def)
  have ns2: "list_all (\<lambda>e. \<not> is_start e) [Tick 130000, SocketClose, Tick 131000]"
    by (simp add: is_start_def)
  note th = updateRecordingTime_whole_seconds_until_stop[of
      "run_events transcoding (recording_session @ [Tick 2600]) mounted" 126999 transcoding]
  from th st have "recordingTime (updateRecordingTime 126999
        (run_events transcoding (recording_session @ [Tick 2600]) mounted))
       = whole_second_display (126999 - 1000)"
    by simp
  with w have one: "recordingTime (updateRecordingTime 126999
        (run_events transcoding (recording_session @ [Tick 2600]) mounted)) = ''02:05''"
    by simp
  from th r ns have "recordingTime (run_events transcoding
        (ClickStop # [Tick 130000, SocketMessage ''QUJD'', Tick 131000])
        (run_events transcoding (recording_session @ [Tick 2600]) mounted)) =
      recordingTime (run_events transcoding (recording_session @ [Tick 2600]) mounted)"
    by blast
  with rt have two: "recordingTime (run_events transcoding
        [ClickStop, Tick 130000, SocketMessage ''QUJD'', Tick 131000]
        (run_events transcoding (recording_session @ [Tick 2600]) mounted)) = ''00:01''"
    by (simp only:)
  from th ic fl have cc: "step transcoding ClickConnect
        (run_events transcoding (recording_session @ [Tick 2600]) mounted) =
      disconnect (run_events transcoding (recording_session @ [Tick 2600]) mounted)"
    by blast
  from th r ns2 have "recordingTime (run_events transcoding [Tick 130000, SocketClose, Tick 131000]
        (disconnect (run_events transcoding (recording_session @ [Tick 2600]) mounted))) =
      recordingTime (run_events transcoding (recording_session @ [Tick 2600]) mounted)"
    by blast
  with rt have "recordingTime (run_events transcoding [Tick 130000, SocketClose, Tick 131000]
        (disconnect (run_events transcoding (recording_session @ [Tick 2600]) mounted))) = ''00:01''"
    by (simp only:)
  with cc have three: "recordingTime (run_events transcoding
        [ClickConnect, Tick 130000, SocketClose, Tick 131000]
        (run_events transcoding (recording_session @ [Tick 2600]) mounted)) = ''00:01''"
    by (simp only: run_events.simps)
  from r ic fl st rt one two three show ?thesis by blast
qed

lemma foldl_sizes:
  "foldl (\<lambda>size chunk. size + length chunk) a chunks = a + sum_list (map length chunks)"
  by (induction chunks arbitrary: a) simp_all

lemma updateFileSize_display:
  "fileSize (updateFileSize s) = size_display (recordedChunksRef s)"
  by (simp add: updateFileSize_def size_display_def foldl_sizes Let_def)

lemma toFixed2_shape:
  assumes "0 \<le> x"
  shows "\<exists>n. toFixed2 x = toString_nat (n div 100) @ ''.'' @ two_digits (n mod 100)
             \<and> \<bar>rat_of_nat n / 100 - x\<bar> \<le> 1 / 200"
proof -
  define n where "n = nat \<lfloor>x * 100 + 1 / 2\<rfloor>"
  define F where "F = rat_of_int \<lfloor>x * 100 + 1 / 2\<rfloor>"
  have f0: "0 \<le> \<lfloor>x * 100 + 1 / 2\<rfloor>" using assms by simp
  then have rn: "rat_of_nat n = F" by (simp add: n_def F_def)
  have up: "F \<le> x * 100 + 1 / 2" unfolding F_def by (rule of_int_floor_le)
  have lo: "x * 100 + 1 / 2 < F + 1" unfolding F_def by linarith
  have "F / 100 - x \<le> 1 / 200" and "x - F / 100 \<le> 1 / 200"
    using up lo by linarith+
  then have "\<bar>F / 100 - x\<bar> \<le> 1 / 200"
    by linarith
  then have "\<bar>rat_of_nat n / 100 - x\<bar> \<le> 1 / 200"
    by (simp only: rn)
  moreover have "toFixed2 x = toString_nat (n div 100) @ ''.'' @ two_digits (n mod 100)"
    by (simp add: toFixed2_def Let_def n_def[symmetric] padStart_two_digits)
  ultimately show ?thesis by blast
qed

lemma createVideoBlob_keeps_buffer:
  "fileSize (createVideoBlob p isoNow loaded s) = fileSize s
   \<and> recordedChunksRef (createVideoBlob p isoNow loaded s) = recordedChunksRef s"
proof (cases "ffmpegRef s = None \<or> \<not> loaded")
  case True
  then show ?thesis by (simp add: createVideoBlob_not_ready convert_failed_def)
next
  case False
  then obtain ff where ff: "ffmpegRef s = Some ff" and l: "loaded" by auto
  show ?thesis
  proof (cases "ffmpegRun p ffmpeg_args (files (writeFile ff ''input.webm'' (concat (recordedChunksRef s))))")
    case (Inl e)
    show ?thesis using l by (simp add: createVideoBlob_exec_rejects[OF ff Inl] convert_failed_def)
  next
    case (Inr fs)
    show ?thesis
    proof (cases "map_of fs ''output.mp4''")
      case None
      show ?thesis using l
        by (simp add: createVideoBlob_no_output[OF ff Inr None] convert_failed_def)
    next
      case (Some data)
      show ?thesis using l by (simp add: createVideoBlob_success[OF ff Inr Some])
    qed
  qed
qed

lemma ondataavailable_size_shown:
  assumes "fileSize s = size_display (recordedChunksRef s)"
  shows "fileSize (ondataavailable data s) = size_display (recordedChunksRef (ondataavailable data s))"
proof (cases "0 < length data")
  case True
  then have "ondataavailable data s = updateFileSize (s\<lparr>recordedChunksRef := recordedChunksRef s @ [data]\<rparr>)"
    by (simp add: ondataavailable_def)
  moreover have "recordedChunksRef (updateFileSize t) = recordedChunksRef t" for t
    by (simp add: updateFileSize_def Let_def)
  ultimately show ?thesis by (simp add: updateFileSize_display)
next
  case False
  with assms show ?thesis by (simp add: ondataavailable_def)
qed

lemma step_keeps_size_shown:
  assumes "\<not> is_start e" and "fileSize s = size_display (recordedChunksRef s)"
  shows "fileSize (step p e s) = size_display (recordedChunksRef (step p e s))"
proof (cases e)
  case (RunTask isoNow)
  show ?thesis
  proof (cases "tasks s")
    case Nil
    with RunTask assms show ?thesis by (simp add: run_task_def)
  next
    case (Cons t rest)
    show ?thesis
    proof (cases t)
      case (FireDataAvailable data)
      have "fileSize (s\<lparr>tasks := rest\<rparr>) = size_display (recordedChunksRef (s\<lparr>tasks := rest\<rparr>))"
        using assms by simp
      from ondataavailable_size_shown[OF this] RunTask Cons FireDataAvailable show ?thesis
        by (simp add: run_task_def)
    next
      case FireStop
      with RunTask Cons assms show ?thesis
        by (cases "mediaRecorderRef s") (simp_all add: run_task_def createVideoBlob_keeps_buffer)
    qed
  qed
next
  case Timeslice
  show ?thesis
  proof (cases "mediaRecorderRef s")
    case None
    with Timeslice assms show ?thesis by simp
  next
    case (Some r)
    have "fileSize (s\<lparr>mediaRecorderRef := Some (r\<lparr>gathered := []\<rparr>)\<rparr>) =
          size_display (recordedChunksRef (s\<lparr>mediaRecorderRef := Some (r\<lparr>gathered := []\<rparr>)\<rparr>))"
      using assms by simp
    from ondataavailable_size_shown[OF this] Timeslice Some assms show ?thesis by simp
  qed
next
  case (SocketMessage d)
  with assms show ?thesis
    by (cases "wsRef s"; cases "canvasRef s"; cases "set_src (loadImage p) (formats d) 0")
       (simp_all add: handleFrame_def drawFrame_def)
next
  case (ClickStart now)
  with assms show ?thesis by (simp add: is_start_def)
qed (use assms in \<open>auto simp: initFFmpeg_def connect_def disconnect_def stopRecording_def
      stopRecording_seen_def recorder_stop_def ws_onopen_def ws_onerror_def ws_onclose_def
      updateRecordingTime_def Let_def split: option.splits\<close>)

lemma run_events_keeps_size_shown:
  "list_all (\<lambda>e. \<not> is_start e) es \<Longrightarrow> fileSize s = size_display (recordedChunksRef s) \<Longrightarrow>
   fileSize (run_events p es s) = size_display (recordedChunksRef (run_events p es s))"
proof (induction es arbitrary: s)
  case Nil
  then show ?case by simp
next
  case (Cons e es)
  then have a: "\<not> is_start e" and b: "list_all (\<lambda>e. \<not> is_start e) es" by auto
  from Cons.IH[OF b step_keeps_size_shown[OF a Cons.prems(2), of p]] show ?case by simp
qed

lemma step_keeps_fileSize:
  assumes "\<not> delivers e s"
  shows "fileSize (step p e s) = fileSize s
         \<and> (recordedChunksRef s = [] \<longrightarrow> recordedChunksRef (step p e s) = [])"
proof (cases e)
  case (RunTask isoNow)
  show ?thesis
  proof (cases "tasks s")
    case Nil
    with RunTask show ?thesis by (simp add: run_task_def)
  next
    case (Cons t rest)
    show ?thesis
    proof (cases t)
      case (FireDataAvailable data)
      with RunTask Cons assms have "data = []" by (simp add: delivers_def)
      with RunTask Cons FireDataAvailable show ?thesis
        by (simp add: run_task_def ondataavailable_def)
    next
      case FireStop
      with RunTask Cons show ?thesis
        by (cases "mediaRecorderRef s") (simp_all add: run_task_def createVideoBlob_keeps_buffer)
    qed
  qed
next
  case Timeslice
  with assms show ?thesis
    by (cases "mediaRecorderRef s") (auto simp: delivers_def ondataavailable_def)
next
  case (SocketMessage d)
  then show ?thesis
    by (cases "wsRef s"; cases "canvasRef s"; cases "set_src (loadImage p) (formats d) 0")
       (simp_all add: handleFrame_def drawFrame_def)
qed (auto simp: initFFmpeg_def connect_def disconnect_def stopRecording_def
      stopRecording_seen_def recorder_stop_def ws_onopen_def ws_onerror_def ws_onclose_def
      startRecording_def updateRecordingTime_def Let_def split: option.splits)

lemma run_events_keeps_fileSize:
  "no_chunk p es s \<Longrightarrow>
   fileSize (run_events p es s) = fileSize s
   \<and> (recordedChunksRef s = [] \<longrightarrow> recordedChunksRef (run_events p es s) = [])"
proof (induction es arbitrary: s)
  case Nil
  then show ?case by simp
next
  case (Cons e es)
  then have a: "\<not> delivers e s" and b: "no_chunk p es (step p e s)" by auto
  from Cons.IH[OF b] step_keeps_fileSize[OF a, of p] show ?case by simp
qed

lemma second_recording_display:
  assumes "data \<noteq> []"
  shows "isRecording (run_events transcoding (second_recording data) mounted)
   \<and> recordedChunksRef (run_events transcoding (second_recording data) mounted) = []
   \<and> fileSize (run_events transcoding (second_recording data) mounted) = toFixed2 (rat_of_nat (length data) / 1048576) @ '' MB''"
  using assms
  by (simp add: second_recording_def recording_session_def mounted_def initFFmpeg_def connect_def
      ws_onopen_def startRecording_def transcoding_def ondataavailable_def updateFileSize_def
      stopRecording_def stopRecording_seen_def recorder_stop_def run_task_def createVideoBlob_def
      writeFile_def exec_def readFile_def createObjectURL_def Let_def)

lemma toFixed2_10486: "toFixed2 (10486 / 1048576) = ''0.01''"
  by code_simp

text \<open>
  C5, as stated, fails: in a recording that has not yet received a chunk the display reads
  \<^verbatim>\<open>0 MB\<close>, not the two-decimal \<^verbatim>\<open>0.00 MB\<close> of an empty buffer; and a second recording shows
  the size of the first one, here \<^verbatim>\<open>0.01 MB\<close> for 10486 bytes, while its own buffer is still
  empty.
\<close>

theorem fileSize_before_first_chunk_counterexample:
  "isRecording (run_events transcoding recording_session mounted)
   \<and> recordedChunksRef (run_events transcoding recording_session mounted) = []
   \<and> fileSize (run_events transcoding recording_session mounted) = ''0 MB''
   \<and> size_display [] = ''0.00 MB''
   \<and> isRecording (run_events transcoding (second_recording (replicate 10486 0)) mounted)
   \<and> recordedChunksRef (run_events transcoding (second_recording (replicate 10486 0)) mounted) = []
   \<and> fileSize (run_events transcoding (second_recording (replicate 10486 0)) mounted) = ''0.01 MB''"
proof -
  have a: "isRecording (run_events transcoding recording_session mounted)
   \<and> recordedChunksRef (run_events transcoding recording_session mounted) = []
   \<and> fileSize (run_events transcoding recording_session mounted) = ''0 MB''
   \<and> size_display [] = ''0.00 MB''"
    by code_simp
  have ne: "replicate 10486 (0 :: 8 word) \<noteq> []" by simp
  from second_recording_display[OF ne] toFixed2_10486 a show ?thesis by simp
qed

text \<open>
  C5, amended. Whenever a non-empty chunk arrives it is buffered, and the file-size display
  is set to the sum of the byte sizes of all buffered chunks, in megabytes (bytes divided by
  1048576), rounded to the nearest hundredth and shown with exactly two decimals and the
  unit \<^verbatim>\<open>MB\<close>. An empty chunk is not buffered and changes nothing. The recorder's
  periodic delivery goes through this handler. Once the display shows the size of the
  buffer, as it does after a chunk has arrived, it shows it after every event up to the
  next start. While no chunk arrives the display keeps its value, also across a start: on
  a fresh page that is the initial \<^verbatim>\<open>0 MB\<close>.
\<close>

theorem ondataavailable_updates_fileSize:
  "(0 < length data \<longrightarrow>
      recordedChunksRef (ondataavailable data s) = recordedChunksRef s @ [data]
      \<and> fileSize (ondataavailable data s) = size_display (recordedChunksRef s @ [data]))
   \<and> (length data = 0 \<longrightarrow> ondataavailable data s = s)
   \<and> (\<forall>r. mediaRecorderRef s = Some r \<and> rec_state r = RecRecording \<longrightarrow>
         step p Timeslice s =
           ondataavailable (gathered r) (s\<lparr>mediaRecorderRef := Some (r\<lparr>gathered := []\<rparr>)\<rparr>))
   \<and> (\<exists>n. size_display chunks =
              toString_nat (n div 100) @ ''.'' @ two_digits (n mod 100) @ '' MB''
          \<and> \<bar>rat_of_nat n / 100 - rat_of_nat (sum_list (map length chunks)) / 1048576\<bar> \<le> 1 / 200)
   \<and> (\<forall>es. fileSize s = size_display (recordedChunksRef s)
            \<and> list_all (\<lambda>e. \<not> is_start e) es \<longrightarrow>
         fileSize (run_events p es s) = size_display (recordedChunksRef (run_events p es s)))
   \<and> (\<forall>es. 0 < length data \<and> list_all (\<lambda>e. \<not> is_start e) es \<longrightarrow>
         fileSize (run_events p es (ondataavailable data s)) =
           size_display (recordedChunksRef (run_events p es (ondataavailable data s))))
   \<and> (\<forall>es. no_chunk p es s \<longrightarrow> fileSize (run_events p es s) = fileSize s)
   \<and> (\<forall>es. no_chunk p es mounted \<longrightarrow>
         fileSize (run_events p es mounted) = ''0 MB''
         \<and> recordedChunksRef (run_events p es mounted) = [])"
proof -
  have a: "0 < length data \<longrightarrow>
      recordedChunksRef (ondataavailable data s) = recordedChunksRef s @ [data]
      \<and> fileSize (ondataavailable data s) = size_display (recordedChunksRef s @ [data])"
    by (simp add: ondataavailable_def updateFileSize_display) (simp add: updateFileSize_def Let_def)
  have b: "length data = 0 \<longrightarrow> ondataavailable data s = s"
    by (simp add: ondataavailable_def)
  have c: "\<forall>r. mediaRecorderRef s = Some r \<and> rec_state r = RecRecording \<longrightarrow>
         step p Timeslice s =
           ondataavailable (gathered r) (s\<lparr>mediaRecorderRef := Some (r\<lparr>gathered := []\<rparr>)\<rparr>)"
    by simp
  have "0 \<le> rat_of_nat (sum_list (map length chunks)) / 1048576" by simp
  from toFixed2_shape[OF this] have d: "\<exists>n. size_display chunks =
              toString_nat (n div 100) @ ''.'' @ two_digits (n mod 100) @ '' MB''
          \<and> \<bar>rat_of_nat n / 100 - rat_of_nat (sum_list (map length chunks)) / 1048576\<bar> \<le> 1 / 200"
    by (auto simp: size_display_def)
  have e: "\<forall>es. fileSize s = size_display (recordedChunksRef s)
            \<and> list_all (\<lambda>e. \<not> is_start e) es \<longrightarrow>
         fileSize (run_events p es s) = size_display (recordedChunksRef (run_events p es s))"
    using run_events_keeps_size_shown[of _ s p] by blast
  have f: "\<forall>es. 0 < length data \<and> list_all (\<lambda>e. \<not> is_start e) es \<longrightarrow>
         fileSize (run_events p es (ondataavailable data s)) =
           size_display (recordedChunksRef (run_events p es (ondataavailable data s)))"
  proof (intro allI impI)
    fix es
    assume h: "0 < length data \<and> list_all (\<lambda>e. \<not> is_start e) es"
    with a have "fileSize (ondataavailable data s) =
        size_display (recordedChunksRef (ondataavailable data s))"
      by simp
    from run_events_keeps_size_shown[OF _ this, of es p] h
    show "fileSize (run_events p es (ondataavailable data s)) =
           size_display (recordedChunksRef (run_events p es (ondataavailable data s)))"
      by blast
  qed
  have g: "\<forall>es. no_chunk p es s \<longrightarrow> fileSize (run_events p es s) = fileSize s"
    using run_events_keeps_fileSize[of p _ s] by blast
  have m: "fileSize mounted = ''0 MB''" "recordedChunksRef mounted = []"
    by (simp_all add: mounted_def)
  have h: "\<forall>es. no_chunk p es mounted \<longrightarrow>
         fileSize (run_events p es mounted) = ''0 MB''
         \<and> recordedChunksRef (run_events p es mounted) = []"
    using run_events_keeps_fileSize[of p _ mounted] m by simp
  from a b c d e f g h show ?thesis by blast
qed

theorem ondataavailable_updates_fileSize_witness:
  "recordedChunksRef (run_events transcoding recording_session mounted) = []
   \<and> fileSize (ondataavailable (replicate 1572864 0)
         (run_events transcoding recording_session mounted)) = ''1.50 MB''
   \<and> ondataavailable [] (run_events transcoding recording_session mounted) =
       run_events transcoding recording_session mounted
   \<and> list_all (\<lambda>e. \<not> is_start e) [Tick 2600, ClickStop, RunTask [], SocketClose]
   \<and> fileSize (run_events transcoding [Tick 2600, ClickStop, RunTask [], SocketClose]
         (ondataavailable (replicate 1572864 0)
            (run_events transcoding recording_session mounted))) =
       size_display (recordedChunksRef
         (run_events transcoding [Tick 2600, ClickStop, RunTask [], SocketClose]
           (ondataavailable (replicate 1572864 0)
              (run_events transcoding recording_session mounted))))
   \<and> no_chunk transcoding (recording_session @ [Tick 2600, Timeslice, ClickStop, RunTask []]) mounted
   \<and> fileSize (run_events transcoding
        (recording_session @ [Tick 2600, Timeslice, ClickStop, RunTask []]) mounted) = ''0 MB''"
proof -
  have e: "recordedChunksRef (run_events transcoding recording_session mounted) = []"
    by code_simp
  have f: "toFixed2 (3 / 2) = ''1.50''" by code_simp
  have d: "size_display [replicate 1572864 0] = ''1.50 MB''"
    by (simp add: size_display_def f)
  have ns: "list_all (\<lambda>e. \<not> is_start e) [Tick 2600, ClickStop, RunTask [], SocketClose]"
    by (simp add: is_start_def)
  have nc: "no_chunk transcoding
      (recording_session @ [Tick 2600, Timeslice, ClickStop, RunTask []]) mounted"
    by code_simp
  have pos: "0 < length (replicate 1572864 (0 :: 8 word))" by simp
  note th = ondataavailable_updates_fileSize[of _
      "run_events transcoding recording_session mounted" transcoding "[]"]
  from th[of "replicate 1572864 0"] e d
  have one: "fileSize (ondataavailable (replicate 1572864 0)
         (run_events transcoding recording_session mounted)) = ''1.50 MB''"
    by simp
  from th[of "[]"]
  have two: "ondataavailable [] (run_events transcoding recording_session mounted) =
       run_events transcoding recording_session mounted"
    by simp
  from th[of "replicate 1572864 0"] pos ns
  have three: "fileSize (run_events transcoding [Tick 2600, ClickStop, RunTask [], SocketClose]
         (ondataavailable (replicate 1572864 0)
            (run_events transcoding recording_session mounted))) =
       size_display (recordedChunksRef
         (run_events transcoding [Tick 2600, ClickStop, RunTask [], SocketClose]
           (ondataavailable (replicate 1572864 0)
              (run_events transcoding recording_session mounted))))"
    by blast
  from th[of "[]"] nc
  have four: "fileSize (run_events transcoding
        (recording_session @ [Tick 2600, Timeslice, ClickStop, RunTask []]) mounted) = ''0 MB''"
    by blast
  from e one two ns three nc four show ?thesis by blast
qed

lemma createVideoBlob_showDownload: "showDownload (createVideoBlob p isoNow loaded s)"
proof (cases "ffmpegRef s = None \<or> \<not> loaded")
  case True
  then show ?thesis by (simp add: createVideoBlob_not_ready convert_failed_def)
next
  case False
  then obtain ff where ff: "ffmpegRef s = Some ff" and l: "loaded" by auto
  show ?thesis
  proof (cases "ffmpegRun p ffmpeg_args (files (writeFile ff ''input.webm'' (concat (recordedChunksRef s))))")
    case (Inl e)
    show ?thesis using l by (simp add: createVideoBlob_exec_rejects[OF ff Inl] convert_failed_def)
  next
    case (Inr fs)
    show ?thesis
    proof (cases "map_of fs ''output.mp4''")
      case None
      show ?thesis using l
        by (simp add: createVideoBlob_no_output[OF ff Inr None] convert_failed_def)
    next
      case (Some data)
      show ?thesis using l by (simp add: createVideoBlob_success[OF ff Inr Some])
    qed
  qed
qed

lemma stopRecording_active:
  assumes "isRecording s" "mediaRecorderRef s = Some r" "rec_state r = RecRecording"
  shows "stopRecording s =
           s\<lparr>isRecording := False,
             mediaRecorderRef := Some (r\<lparr>rec_state := RecInactive, gathered := []\<rparr>),
             tasks := tasks s @ [FireDataAvailable (gathered r), FireStop],
             recordingIntervalRef := None,
             status := ''Recording stopped''\<rparr>"
  using assms
  by (cases "recordingIntervalRef s")
     (simp_all add: stopRecording_def stopRecording_seen_def recorder_stop_def Let_def)

text \<open>
  The Stop button and \<^verbatim>\<open>disconnect\<close> call \<^verbatim>\<open>stopRecording\<close> of the current render, which reads
  the current \<^verbatim>\<open>isRecording\<close>. That call changes nothing when the page is not recording, and
  calling it twice is calling it once. When the page is recording with an active recorder, it marks the page
  as not recording, sets the status, and stops the recorder, which queues two tasks: the
  delivery of the data gathered so far, then the \<^verbatim>\<open>stop\<close> event. Run in that order, the
  first appends the last chunk (when it is not empty) to the buffer and the second calls
  \<^verbatim>\<open>createVideoBlob\<close>, which shows the download section.
\<close>

lemma stopRecording_current_render:
  "(\<not> isRecording s \<longrightarrow> stopRecording s = s)
   \<and> stopRecording (stopRecording s) = stopRecording s
   \<and> (isRecording s \<and> mediaRecorderRef s = Some r \<and> rec_state r = RecRecording \<longrightarrow>
         \<not> isRecording (stopRecording s)
         \<and> mediaRecorderRef (stopRecording s) = Some (r\<lparr>rec_state := RecInactive, gathered := []\<rparr>)
         \<and> tasks (stopRecording s) = tasks s @ [FireDataAvailable (gathered r), FireStop]
         \<and> recordedChunksRef (stopRecording s) = recordedChunksRef s
         \<and> status (stopRecording s) = ''Recording stopped''
         \<and> (tasks s = [] \<longrightarrow>
               run_task p t1 (stopRecording s) =
                 ondataavailable (gathered r) ((stopRecording s)\<lparr>tasks := [FireStop]\<rparr>)
               \<and> recordedChunksRef (run_task p t1 (stopRecording s)) =
                   (if gathered r = [] then recordedChunksRef s
                    else recordedChunksRef s @ [gathered r])
               \<and> tasks (run_task p t1 (stopRecording s)) = [FireStop]
               \<and> run_events p [RunTask t1, RunTask t2] (stopRecording s) =
                   createVideoBlob p t2 (seen_ffmpegLoaded r)
                     ((run_task p t1 (stopRecording s))\<lparr>tasks := []\<rparr>)
               \<and> showDownload (run_events p [RunTask t1, RunTask t2] (stopRecording s))))"
proof -
  have a: "\<not> isRecording s \<longrightarrow> stopRecording s = s"
    by (simp add: stopRecording_def stopRecording_seen_def)
  have off: "\<not> isRecording (stopRecording s)"
    by (auto simp: stopRecording_def stopRecording_seen_def recorder_stop_def Let_def
        split: option.splits)
  then have b: "stopRecording (stopRecording s) = stopRecording s"
    by (simp add: stopRecording_def[of "stopRecording s"] stopRecording_seen_def)
  have c: "\<not> isRecording (stopRecording s)
         \<and> mediaRecorderRef (stopRecording s) = Some (r\<lparr>rec_state := RecInactive, gathered := []\<rparr>)
         \<and> tasks (stopRecording s) = tasks s @ [FireDataAvailable (gathered r), FireStop]
         \<and> recordedChunksRef (stopRecording s) = recordedChunksRef s
         \<and> status (stopRecording s) = ''Recording stopped''
         \<and> (tasks s = [] \<longrightarrow>
               run_task p t1 (stopRecording s) =
                 ondataavailable (gathered r) ((stopRecording s)\<lparr>tasks := [FireStop]\<rparr>)
               \<and> recordedChunksRef (run_task p t1 (stopRecording s)) =
                   (if gathered r = [] then recordedChunksRef s
                    else recordedChunksRef s @ [gathered r])
               \<and> tasks (run_task p t1 (stopRecording s)) = [FireStop]
               \<and> run_events p [RunTask t1, RunTask t2] (stopRecording s) =
                   createVideoBlob p t2 (seen_ffmpegLoaded r)
                     ((run_task p t1 (stopRecording s))\<lparr>tasks := []\<rparr>)
               \<and> showDownload (run_events p [RunTask t1, RunTask t2] (stopRecording s)))"
    if h: "isRecording s \<and> mediaRecorderRef s = Some r \<and> rec_state r = RecRecording"
  proof -
    from h have eq: "stopRecording s =
           s\<lparr>isRecording := False,
             mediaRecorderRef := Some (r\<lparr>rec_state := RecInactive, gathered := []\<rparr>),
             tasks := tasks s @ [FireDataAvailable (gathered r), FireStop],
             recordingIntervalRef := None,
             status := ''Recording stopped''\<rparr>"
      using stopRecording_active by blast
    have basic: "mediaRecorderRef (stopRecording s) = Some (r\<lparr>rec_state := RecInactive, gathered := []\<rparr>)
         \<and> tasks (stopRecording s) = tasks s @ [FireDataAvailable (gathered r), FireStop]
         \<and> recordedChunksRef (stopRecording s) = recordedChunksRef s
         \<and> status (stopRecording s) = ''Recording stopped''"
      by (simp add: eq)
    have q: "run_task p t1 (stopRecording s) =
                 ondataavailable (gathered r) ((stopRecording s)\<lparr>tasks := [FireStop]\<rparr>)
               \<and> recordedChunksRef (run_task p t1 (stopRecording s)) =
                   (if gathered r = [] then recordedChunksRef s
                    else recordedChunksRef s @ [gathered r])
               \<and> tasks (run_task p t1 (stopRecording s)) = [FireStop]
               \<and> run_events p [RunTask t1, RunTask t2] (stopRecording s) =
                   createVideoBlob p t2 (seen_ffmpegLoaded r)
                     ((run_task p t1 (stopRecording s))\<lparr>tasks := []\<rparr>)
               \<and> showDownload (run_events p [RunTask t1, RunTask t2] (stopRecording s))"
      if e: "tasks s = []"
    proof -
      have r1: "run_task p t1 (stopRecording s) =
                 ondataavailable (gathered r) ((stopRecording s)\<lparr>tasks := [FireStop]\<rparr>)"
        by (simp add: run_task_def basic e)
      have ch: "recordedChunksRef (run_task p t1 (stopRecording s)) =
                   (if gathered r = [] then recordedChunksRef s
                    else recordedChunksRef s @ [gathered r])"
        by (simp add: r1 ondataavailable_def updateFileSize_def Let_def basic)
      have tk: "tasks (run_task p t1 (stopRecording s)) = [FireStop]"
        by (simp add: r1 ondataavailable_def updateFileSize_def Let_def)
      have mr: "mediaRecorderRef (run_task p t1 (stopRecording s)) =
                  Some (r\<lparr>rec_state := RecInactive, gathered := []\<rparr>)"
        by (simp add: r1 ondataavailable_def updateFileSize_def Let_def basic)
      have r2: "run_events p [RunTask t1, RunTask t2] (stopRecording s) =
                   createVideoBlob p t2 (seen_ffmpegLoaded r)
                     ((run_task p t1 (stopRecording s))\<lparr>tasks := []\<rparr>)"
        by (simp add: run_task_def[of p t2] tk mr)
      from r1 ch tk r2 createVideoBlob_showDownload show ?thesis by simp
    qed
    from off basic q show ?thesis by blast
  qed
  from a b c show ?thesis by blast
qed

lemma stopRecording_current_render_example:
  "stopRecording mounted = mounted
   \<and> isRecording recording_two_chunks
   \<and> recordedChunksRef recording_two_chunks = [[1, 2]]
   \<and> tasks (stopRecording recording_two_chunks) = [FireDataAvailable [3], FireStop]
   \<and> recordedChunksRef (run_task transcoding ''2024-01-15T10:30:45.123Z''
         (stopRecording recording_two_chunks)) = [[1, 2], [3]]
   \<and> showDownload (run_events transcoding
         [RunTask ''2024-01-15T10:30:45.123Z'', RunTask ''2024-01-15T10:30:45.223Z'']
         (stopRecording recording_two_chunks))"
proof -
  have nr: "\<not> isRecording mounted" by (simp add: mounted_def)
  have r: "isRecording recording_two_chunks" by code_simp
  have m: "mediaRecorderRef recording_two_chunks =
             Some \<lparr>rec_state = RecRecording, gathered = [3], seen_ffmpegLoaded = True\<rparr>"
    by code_simp
  have t: "tasks recording_two_chunks = []" by code_simp
  have c: "recordedChunksRef recording_two_chunks = [[1, 2]]" by code_simp
  from stopRecording_current_render[of mounted] nr
  have one: "stopRecording mounted = mounted" by blast
  note th = stopRecording_current_render[of recording_two_chunks
      "\<lparr>rec_state = RecRecording, gathered = [3], seen_ffmpegLoaded = True\<rparr>" transcoding
      "''2024-01-15T10:30:45.123Z''" "''2024-01-15T10:30:45.223Z''"]
  have rs: "rec_state \<lparr>rec_state = RecRecording, gathered = [3], seen_ffmpegLoaded = True\<rparr>
              = RecRecording"
    by simp
  from th r m rs have A: "tasks (stopRecording recording_two_chunks) =
        tasks recording_two_chunks
        @ [FireDataAvailable (gathered \<lparr>rec_state = RecRecording, gathered = [3], seen_ffmpegLoaded = True\<rparr>),
           FireStop]"
    by blast
  from th r m rs have B: "tasks recording_two_chunks = [] \<longrightarrow>
      recordedChunksRef (run_task transcoding ''2024-01-15T10:30:45.123Z''
         (stopRecording recording_two_chunks)) =
        (if gathered \<lparr>rec_state = RecRecording, gathered = [3], seen_ffmpegLoaded = True\<rparr> = []
         then recordedChunksRef recording_two_chunks
         else recordedChunksRef recording_two_chunks
              @ [gathered \<lparr>rec_state = RecRecording, gathered = [3], seen_ffmpegLoaded = True\<rparr>])
      \<and> showDownload (run_events transcoding
         [RunTask ''2024-01-15T10:30:45.123Z'', RunTask ''2024-01-15T10:30:45.223Z'']
         (stopRecording recording_two_chunks))"
    by blast
  from A t have A': "tasks (stopRecording recording_two_chunks) = [FireDataAvailable [3], FireStop]"
    by simp
  from B t have B1: "recordedChunksRef (run_task transcoding ''2024-01-15T10:30:45.123Z''
         (stopRecording recording_two_chunks)) = [[1, 2], [3]]"
    by (simp add: c)
  from B t have B2: "showDownload (run_events transcoding
         [RunTask ''2024-01-15T10:30:45.123Z'', RunTask ''2024-01-15T10:30:45.223Z'']
         (stopRecording recording_two_chunks))"
    by blast
  note two = A' B1 B2
  from one r c two show ?thesis by blast
qed

text \<open>
  C6 fails for the call of \<^verbatim>\<open>stopRecording\<close> in the socket's \<^verbatim>\<open>onclose\<close> handler, which reads
  the \<^verbatim>\<open>isRecording\<close> of the render that opened the socket. A socket opened before the
  recording closes during it: the call returns at once, the recorder stays active, no task
  is queued and no blob is created, and the page is still recording. A socket opened during
  a recording closes after the recording was stopped: the call is made while the page is
  not recording, and it replaces the status "Disconnected" that the handler has just set by
  "Recording stopped".
\<close>

theorem ws_onclose_stale_stopRecording:
  "isRecording recording_two_chunks
   \<and> wsRef recording_two_chunks = Some \<lparr>readyState = CONNECTING, seen_isRecording = False\<rparr>
   \<and> step transcoding SocketClose recording_two_chunks =
       recording_two_chunks\<lparr>isConnected := False, status := ''Disconnected''\<rparr>
   \<and> isRecording (step transcoding SocketClose recording_two_chunks)
   \<and> mediaRecorderRef (step transcoding SocketClose recording_two_chunks) =
       Some \<lparr>rec_state = RecRecording, gathered = [3], seen_ffmpegLoaded = True\<rparr>
   \<and> tasks (step transcoding SocketClose recording_two_chunks) = []
   \<and> recordingIntervalRef (step transcoding SocketClose recording_two_chunks) = Some ()
   \<and> \<not> showDownload (run_events transcoding
         [SocketClose, RunTask ''2024-01-15T10:30:45.123Z'', RunTask ''2024-01-15T10:30:45.223Z'']
         recording_two_chunks)
   \<and> \<not> isRecording reconnected_stopped
   \<and> wsRef reconnected_stopped = Some \<lparr>readyState = CONNECTING, seen_isRecording = True\<rparr>
   \<and> step transcoding SocketClose reconnected_stopped =
       reconnected_stopped\<lparr>isConnected := False, status := ''Recording stopped''\<rparr>
   \<and> stopRecording_seen True (reconnected_stopped\<lparr>isConnected := False, status := ''Disconnected''\<rparr>)
       \<noteq> reconnected_stopped\<lparr>isConnected := False, status := ''Disconnected''\<rparr>"
  by code_simp

end
